theory Spec2Isabelle
  imports Complex_Main "HOL-Library.AList" "HOL-Library.Multiset"
begin

section \<open>Numeric values\<close>

text \<open>
  The scores of \<^verbatim>\<open>feature_importance.py\<close> are numpy doubles. The model keeps the special
  values of IEEE arithmetic that the code can produce (not-a-number from \<^verbatim>\<open>0.0 / 0.0\<close> and from
  statistics of empty arrays, the infinities from \<^verbatim>\<open>x / 0.0\<close>) and computes every finite
  result exactly, as a real number: rounding and signed zeros are outside the model.
\<close>

datatype fl = Fin real | PInf | NInf | NaN

fun fl_add :: "fl \<Rightarrow> fl \<Rightarrow> fl" where
  "fl_add (Fin x) (Fin y) = Fin (x + y)"
| "fl_add NaN b = NaN"
| "fl_add a NaN = NaN"
| "fl_add PInf NInf = NaN"
| "fl_add NInf PInf = NaN"
| "fl_add PInf b = PInf"
| "fl_add a PInf = PInf"
| "fl_add NInf b = NInf"
| "fl_add a NInf = NInf"

fun fl_div :: "fl \<Rightarrow> fl \<Rightarrow> fl" where
  "fl_div (Fin x) (Fin y) =
     (if y \<noteq> 0 then Fin (x / y) else if x = 0 then NaN else if 0 < x then PInf else NInf)"
| "fl_div NaN b = NaN"
| "fl_div a NaN = NaN"
| "fl_div (Fin x) PInf = Fin 0"
| "fl_div (Fin x) NInf = Fin 0"
| "fl_div PInf (Fin y) = (if 0 \<le> y then PInf else NInf)"
| "fl_div NInf (Fin y) = (if 0 \<le> y then NInf else PInf)"
| "fl_div a b = NaN"

text \<open>The comparisons of IEEE arithmetic: every comparison with not-a-number is false.\<close>

fun fl_less :: "fl \<Rightarrow> fl \<Rightarrow> bool" where
  "fl_less (Fin x) (Fin y) = (x < y)"
| "fl_less NaN b = False"
| "fl_less a NaN = False"
| "fl_less a NInf = False"
| "fl_less PInf b = False"
| "fl_less NInf b = True"
| "fl_less a PInf = True"


section \<open>Prediction arrays and their statistics\<close>

text \<open>
  What \<^verbatim>\<open>predict\<close> returns and what \<^verbatim>\<open>y_true\<close> holds: a numpy array with one entry
  per row (\<open>Arr1\<close>, of shape \<open>(n,)\<close>), or with one row of \<open>k\<close> outputs per row (\<open>Arr2 k\<close>, of
  shape \<open>(n, k)\<close>, each row of length \<open>k\<close>). The entries are finite numbers.
\<close>

datatype ndarray = Arr1 "real list" | Arr2 nat "real list list"

fun shape0 :: "ndarray \<Rightarrow> nat" where
  "shape0 (Arr1 xs) = length xs"
| "shape0 (Arr2 k rows) = length rows"

fun out_cols :: "ndarray \<Rightarrow> nat" where
  "out_cols (Arr1 xs) = 1"
| "out_cols (Arr2 k rows) = k"

fun wf_ndarray :: "ndarray \<Rightarrow> bool" where
  "wf_ndarray (Arr1 xs) = True"
| "wf_ndarray (Arr2 k rows) = list_all (\<lambda>r. length r = k) rows"

text \<open>
  The exceptions that a call can end with: the one that a collaborator raised (\<^verbatim>\<open>predict\<close>,
  the plotting library), passed on unchanged; those of pandas and numpy on a missing column
  (\<^verbatim>\<open>KeyError\<close>), on a column of the wrong length, on a draw from an empty column and on
  arrays of different shapes (all \<^verbatim>\<open>ValueError\<close>, told apart here); \<^verbatim>\<open>StopIteration\<close> of
  \<^verbatim>\<open>next\<close>; and the two errors of \<^verbatim>\<open>lynxes.util.exceptions\<close> that
  \<^verbatim>\<open>plot_feature_importance\<close> raises.
\<close>

datatype 'e error =
    Raised 'e
  | KeyError string
  | Length_mismatch
  | Empty_population
  | Shape_mismatch
  | StopIteration
  | MatplotlibUnavailableError
  | MatplotlibDisplayError

fun shape :: "ndarray \<Rightarrow> nat list" where
  "shape (Arr1 xs) = [length xs]"
| "shape (Arr2 k rows) = [length rows, k]"

text \<open>
  numpy's broadcasting. Two dimensions go together when they are equal or one of them is 1,
  which is then stretched to the other; an index into a stretched dimension reads its only
  entry. A one-dimensional array of length \<open>m\<close> meets a two-dimensional one as the single
  row of a \<open>1 \<times> m\<close> array.
\<close>

definition bc_dim :: "nat \<Rightarrow> nat \<Rightarrow> nat option" where
  "bc_dim a b =
     (if a = b then Some a else if a = 1 then Some b else if b = 1 then Some a else None)"

definition bc_nth :: "'a list \<Rightarrow> nat \<Rightarrow> 'a" where
  "bc_nth xs i = xs ! (if length xs = 1 then 0 else i)"

text \<open>An array as a two-dimensional one: its rows, and the length of a row.\<close>

fun rows_of :: "ndarray \<Rightarrow> real list list" where
  "rows_of (Arr1 xs) = [xs]"
| "rows_of (Arr2 k rows) = rows"

fun row_length :: "ndarray \<Rightarrow> nat" where
  "row_length (Arr1 xs) = length xs"
| "row_length (Arr2 k rows) = k"

text \<open>
  \<^verbatim>\<open>new_predictions - original_predictions\<close>: numpy's difference of two arrays, entry by
  entry after broadcasting, one-dimensional when both arrays are; numpy raises when the
  shapes do not go together, and the difference is then \<open>None\<close>, which the caller reports as
  \<open>Shape_mismatch\<close>. An \<open>Arr2 k\<close> with a row whose length is not \<open>k\<close> is no numpy array;
  it has no difference either.
\<close>

fun nd_sub :: "ndarray \<Rightarrow> ndarray \<Rightarrow> ndarray option" where
  "nd_sub (Arr1 xs) (Arr1 ys) =
     (case bc_dim (length xs) (length ys) of
        None \<Rightarrow> None
      | Some n \<Rightarrow> Some (Arr1 (map (\<lambda>j. bc_nth xs j - bc_nth ys j) [0..<n])))"
| "nd_sub a b =
     (if wf_ndarray a \<and> wf_ndarray b then
        (case bc_dim (length (rows_of a)) (length (rows_of b)) of
           None \<Rightarrow> None
         | Some n \<Rightarrow>
             (case bc_dim (row_length a) (row_length b) of
                None \<Rightarrow> None
              | Some k \<Rightarrow>
                  Some (Arr2 k (map (\<lambda>i. map (\<lambda>j. bc_nth (bc_nth (rows_of a) i) j
                                                  - bc_nth (bc_nth (rows_of b) i) j) [0..<k])
                                  [0..<n]))))
      else None)"

definition mean_real :: "real list \<Rightarrow> real" where
  "mean_real xs = sum_list xs / real (length xs)"

text \<open>
  \<^verbatim>\<open>np.std\<close> of a one-dimensional array: the population standard deviation
  \<^verbatim>\<open>sqrt(mean(abs(x - x.mean())**2))\<close>, and not-a-number for an empty array.
\<close>

definition std_pop :: "real list \<Rightarrow> fl" where
  "std_pop xs =
     (if xs = [] then NaN
      else Fin (sqrt (mean_real (map (\<lambda>x. \<bar>x - mean_real xs\<bar>\<^sup>2) xs))))"

text \<open>
  \<^verbatim>\<open>np.std(a, axis=0)\<close> is a scalar for a one-dimensional array and one value per output
  column for a two-dimensional one; \<^verbatim>\<open>np.mean\<close> of a scalar is the scalar, of a vector the
  sum divided by the length (not-a-number for the empty vector).
\<close>

datatype stat = Scalar fl | Vector "fl list"

fun np_std_axis0 :: "ndarray \<Rightarrow> stat" where
  "np_std_axis0 (Arr1 xs) = Scalar (std_pop xs)"
| "np_std_axis0 (Arr2 k rows) = Vector (map (\<lambda>j. std_pop (map (\<lambda>r. r ! j) rows)) [0..<k])"

definition fl_sum :: "fl list \<Rightarrow> fl" where
  "fl_sum vs = foldr fl_add vs (Fin 0)"

fun np_mean :: "stat \<Rightarrow> fl" where
  "np_mean (Scalar v) = v"
| "np_mean (Vector vs) = (if vs = [] then NaN else fl_div (fl_sum vs) (Fin (real (length vs))))"

section \<open>Data frames, data managers and the store\<close>

text \<open>
  A pandas \<^verbatim>\<open>DataFrame\<close>: the row labels and the named columns, in order. A
  \<^verbatim>\<open>DataManager\<close> holds a reference to its frame; frames live in a store, so that writing a
  column through one manager is seen through every manager that shares the frame.
\<close>

record 'v data_frame =
  fr_index :: "nat list"
  fr_columns :: "(string \<times> 'v list) list"

record data_manager =
  data :: nat
  feature_ids :: "string list"
  index :: "nat list"

text \<open>
  The state that a call works on: the store of frames with the next free reference, the
  position reached in the random source, and the record of the calls of \<^verbatim>\<open>predict\<close>. An
  operation returns its result or the exception it raises, and the state it leaves.
\<close>

record 'v state =
  heap :: "nat \<Rightarrow> 'v data_frame"
  next_ref :: nat
  rng_pos :: nat
  predict_calls :: "(nat \<times> 'v data_frame) list"

type_synonym ('e, 'v, 'a) exc = "'v state \<Rightarrow> ('e error + 'a) \<times> 'v state"

definition exc_return :: "'a \<Rightarrow> ('e, 'v, 'a) exc" where
  "exc_return x = (\<lambda>s. (Inr x, s))"

definition exc_raise :: "'e error \<Rightarrow> ('e, 'v, 'a) exc" where
  "exc_raise e = (\<lambda>s. (Inl e, s))"

definition exc_lift :: "'e error + 'a \<Rightarrow> ('e, 'v, 'a) exc" where
  "exc_lift r = (\<lambda>s. (r, s))"

definition exc_of_option :: "'e error \<Rightarrow> 'a option \<Rightarrow> ('e, 'v, 'a) exc" where
  "exc_of_option e r = (\<lambda>s. case r of None \<Rightarrow> (Inl e, s) | Some x \<Rightarrow> (Inr x, s))"

definition exc_bind :: "('e, 'v, 'a) exc \<Rightarrow> ('a \<Rightarrow> ('e, 'v, 'b) exc) \<Rightarrow> ('e, 'v, 'b) exc" where
  "exc_bind m f = (\<lambda>s. case m s of (Inl e, s') \<Rightarrow> (Inl e, s') | (Inr x, s') \<Rightarrow> f x s')"

text \<open>
  Modelled from the spec: \<^verbatim>\<open>DataManager\<close> is imported from \<^verbatim>\<open>lynxes.data\<close>, which is not among
  the sources. Its constructor makes "a working copy of the dataset (independent storage;
  mutations to it must not affect the original)": the frame is copied to a fresh reference.
\<close>

definition DataManager :: "nat \<Rightarrow> string list \<Rightarrow> nat list \<Rightarrow> ('e, 'v, data_manager) exc" where
  "DataManager d names idx = (\<lambda>s.
     let r = next_ref s in
     (Inr \<lparr>data = r, feature_ids = names, index = idx\<rparr>,
      s\<lparr>heap := (heap s)(r := heap s d), next_ref := Suc r\<rparr>))"

text \<open>
  Modelled from the spec: the column write of \<^verbatim>\<open>DataManager\<close>, on the frame. "write/replace
  a column's values": the column of that name is replaced in place, a new name is appended.
\<close>

definition frame_set_column :: "'v data_frame \<Rightarrow> string \<Rightarrow> 'v list \<Rightarrow> 'v data_frame" where
  "frame_set_column fr feature_id vals =
     fr\<lparr>fr_columns := AList.update feature_id vals (fr_columns fr)\<rparr>"

text \<open>
  Modelled from the spec: \<^verbatim>\<open>DataManager.__getitem__\<close>, "column read by feature identifier".
  \<^verbatim>\<open>dm[feature_id]\<close> reads the column of the manager's frame; a missing name is a
  \<^verbatim>\<open>KeyError\<close>.
\<close>

definition dm_getitem :: "data_manager \<Rightarrow> string \<Rightarrow> ('e, 'v, 'v list) exc" where
  "dm_getitem dm feature_id = (\<lambda>s.
     case map_of (fr_columns (heap s (data dm))) feature_id of
       None \<Rightarrow> (Inl (KeyError feature_id), s)
     | Some col \<Rightarrow> (Inr col, s))"

text \<open>
  Modelled from the spec: \<^verbatim>\<open>DataManager.__setitem__\<close>, "column write by feature identifier".
  \<^verbatim>\<open>dm[feature_id] = values\<close> writes the column in the stored frame, so through every
  manager that shares it; values whose length is not the number of rows are refused, as
  pandas does.
\<close>

definition dm_setitem :: "data_manager \<Rightarrow> string \<Rightarrow> 'v list \<Rightarrow> ('e, 'v, unit) exc" where
  "dm_setitem dm feature_id vals = (\<lambda>s.
     let fr = heap s (data dm) in
     if length vals \<noteq> length (fr_index fr) then (Inl Length_mismatch, s)
     else (Inr (), s\<lparr>heap := (heap s)(data dm := frame_set_column fr feature_id vals)\<rparr>))"

text \<open>
  Modelled from the spec: the draws of \<^verbatim>\<open>generate_column_sample\<close>, "uniform random choice
  with replacement over the original column's observed values". The random source is the
  sequence \<open>rand\<close> of natural numbers; the \<open>i\<close>-th draw made at position \<open>pos\<close> is the value
  of the column at index \<open>rand (pos + i)\<close> modulo the length of the column.
\<close>

definition draw_samples :: "(nat \<Rightarrow> nat) \<Rightarrow> nat \<Rightarrow> 'v list \<Rightarrow> nat \<Rightarrow> 'v list" where
  "draw_samples rand pos col n_samples =
     map (\<lambda>i. col ! (rand (pos + i) mod length col)) [0..<n_samples]"

text \<open>
  Modelled from the spec: \<^verbatim>\<open>generate_column_sample(feature_id, n_samples, 'random-choice')\<close>
  of \<^verbatim>\<open>DataManager\<close>, the "generate column sample" operation "parameterized by sample
  count". It reads the column, draws \<open>n_samples\<close> values from it at the position reached in
  the random source, and advances that position; nothing can be drawn from an empty column.
\<close>

definition generate_column_sample ::
  "(nat \<Rightarrow> nat) \<Rightarrow> data_manager \<Rightarrow> string \<Rightarrow> nat \<Rightarrow> ('e, 'v, 'v list) exc" where
  "generate_column_sample rand dm feature_id n_samples =
     exc_bind (dm_getitem dm feature_id) (\<lambda>col s.
       if col = [] \<and> 0 < n_samples then (Inl Empty_population, s)
       else (Inr (draw_samples rand (rng_pos s) col n_samples),
             s\<lparr>rng_pos := rng_pos s + n_samples\<rparr>))"

text \<open>
  \<^verbatim>\<open>model_instance.predict(dm.data)\<close>: the prediction function is a parameter, it sees the
  frame's contents and may fail; its failure propagates. Every call is recorded with the
  reference and the contents of the frame it was given.
\<close>

definition call_predict ::
  "('v data_frame \<Rightarrow> 'e + ndarray) \<Rightarrow> nat \<Rightarrow> ('e, 'v, ndarray) exc" where
  "call_predict predict r = (\<lambda>s.
     let fr = heap s r;
         s' = s\<lparr>predict_calls := predict_calls s @ [(r, fr)]\<rparr>
     in case predict fr of
          Inl e \<Rightarrow> (Inl (Raised e), s')
        | Inr a \<Rightarrow> (Inr a, s'))"

section \<open>The importance engine\<close>

text \<open>
  One pass of the loop over \<^verbatim>\<open>self.data_set.feature_ids\<close> (lines 71 to 86): perturb the
  column of the working copy, predict, score the change, reset the column. The score is
  stored in \<^verbatim>\<open>importances\<close> by the loop below; the source stores it just before the reset,
  which makes no difference: \<^verbatim>\<open>importances\<close> is local, and lost when the reset raises.
\<close>

definition perturb_feature ::
  "('v data_frame \<Rightarrow> 'e + ndarray) \<Rightarrow> (nat \<Rightarrow> nat) \<Rightarrow> data_manager \<Rightarrow> data_manager \<Rightarrow>
   ndarray \<Rightarrow> nat \<Rightarrow> string \<Rightarrow> ('e, 'v, fl) exc" where
  "perturb_feature predict rand data_set copy_of_data_set original_predictions n feature_id =
     exc_bind (generate_column_sample rand data_set feature_id n) (\<lambda>samples.
     exc_bind (dm_setitem copy_of_data_set feature_id samples) (\<lambda>_.
     exc_bind (call_predict predict (data copy_of_data_set)) (\<lambda>new_predictions.
     exc_bind (exc_of_option Shape_mismatch (nd_sub new_predictions original_predictions))
       (\<lambda>changes_in_predictions.
     let importance = np_mean (np_std_axis0 changes_in_predictions) in
     exc_bind (dm_getitem data_set feature_id) (\<lambda>original_column.
     exc_bind (dm_setitem copy_of_data_set feature_id original_column) (\<lambda>_.
     exc_return importance))))))"

fun importance_loop ::
  "('v data_frame \<Rightarrow> 'e + ndarray) \<Rightarrow> (nat \<Rightarrow> nat) \<Rightarrow> data_manager \<Rightarrow> data_manager \<Rightarrow>
   ndarray \<Rightarrow> nat \<Rightarrow> string list \<Rightarrow> (string \<times> fl) list \<Rightarrow> ('e, 'v, (string \<times> fl) list) exc" where
  "importance_loop predict rand data_set copy_of_data_set original_predictions n [] importances =
     exc_return importances"
| "importance_loop predict rand data_set copy_of_data_set original_predictions n
       (feature_id # rest) importances =
     exc_bind (perturb_feature predict rand data_set copy_of_data_set original_predictions n
                 feature_id) (\<lambda>importance.
     importance_loop predict rand data_set copy_of_data_set original_predictions n rest
       (AList.update feature_id importance importances))"

text \<open>Lines 57 to 86: the baseline, the working copy and the loop; the raw scores.\<close>

definition raw_importances ::
  "('v data_frame \<Rightarrow> 'e + ndarray) \<Rightarrow> (nat \<Rightarrow> nat) \<Rightarrow> data_manager \<Rightarrow> ndarray option \<Rightarrow>
   ('e, 'v, (string \<times> fl) list) exc" where
  "raw_importances predict rand data_set y_true =
     exc_bind (case y_true of
                 None \<Rightarrow> call_predict predict (data data_set)
               | Some y \<Rightarrow> exc_return y) (\<lambda>original_predictions.
     let n = shape0 original_predictions in
     exc_bind (DataManager (data data_set) (feature_ids data_set) (index data_set))
       (\<lambda>copy_of_data_set.
     importance_loop predict rand data_set copy_of_data_set original_predictions n
       (feature_ids data_set) []))"

text \<open>
  \<^verbatim>\<open>pd.Series(importances).sort_values(ascending=ascending)\<close>: the entries that are not
  not-a-number in increasing order of their score, reversed when \<^verbatim>\<open>ascending\<close> is false,
  then the not-a-number entries. The order pandas gives to equal scores is not specified.
\<close>

fun insort_score :: "string \<times> fl \<Rightarrow> (string \<times> fl) list \<Rightarrow> (string \<times> fl) list" where
  "insort_score x [] = [x]"
| "insort_score x (y # ys) =
     (if fl_less (snd y) (snd x) then y # insort_score x ys else x # y # ys)"

definition sort_values :: "bool \<Rightarrow> (string \<times> fl) list \<Rightarrow> (string \<times> fl) list" where
  "sort_values ascending series =
     (let good = filter (\<lambda>p. snd p \<noteq> NaN) series;
          bad = filter (\<lambda>p. snd p = NaN) series;
          sorted_good = foldr insort_score good []
      in (if ascending then sorted_good else rev sorted_good) @ bad)"

text \<open>\<^verbatim>\<open>importances.sum()\<close> skips not-a-number entries; the sum of no entries is zero.\<close>

definition series_sum :: "(string \<times> fl) list \<Rightarrow> fl" where
  "series_sum series = fl_sum (filter (\<lambda>v. v \<noteq> NaN) (map snd series))"

definition series_div :: "(string \<times> fl) list \<Rightarrow> fl \<Rightarrow> (string \<times> fl) list" where
  "series_div series d = map (\<lambda>p. (fst p, fl_div (snd p) d)) series"

definition normalize_sorted :: "bool \<Rightarrow> (string \<times> fl) list \<Rightarrow> (string \<times> fl) list" where
  "normalize_sorted ascending importances =
     (let sorted_importances = sort_values ascending importances
      in series_div sorted_importances (series_sum sorted_importances))"

definition feature_importance ::
  "('v data_frame \<Rightarrow> 'e + ndarray) \<Rightarrow> (nat \<Rightarrow> nat) \<Rightarrow> data_manager \<Rightarrow> bool \<Rightarrow> ndarray option \<Rightarrow>
   ('e, 'v, (string \<times> fl) list) exc" where
  "feature_importance predict rand data_set ascending y_true =
     exc_bind (raw_importances predict rand data_set y_true) (\<lambda>importances.
     exc_return (normalize_sorted ascending importances))"

section \<open>The presentation adapter\<close>

text \<open>
  What \<^verbatim>\<open>from matplotlib import pyplot\<close> does is a parameter: it succeeds or raises.
  The plotting library itself is reduced to what the function asks of it: a fresh figure
  with its axes (which may fail), and axes that record the bar charts drawn on them.
  \<^verbatim>\<open>COLORS\<close> is imported from \<^verbatim>\<open>lynxes.util.plotting\<close>, which is not among the sources, and
  is a parameter.
\<close>

datatype 'e import_outcome = Imported | ImportError | RuntimeError | Other_exception 'e

record 'c axes =
  figure :: nat
  barh :: "((string \<times> fl) list \<times> 'c) list"

definition plot_feature_importance ::
  "'e import_outcome \<Rightarrow> 'e + nat \<times> 'c axes \<Rightarrow> 'c list \<Rightarrow>
   ('v data_frame \<Rightarrow> 'e + ndarray) \<Rightarrow> (nat \<Rightarrow> nat) \<Rightarrow> data_manager \<Rightarrow> ndarray option \<Rightarrow> bool \<Rightarrow>
   'c axes option \<Rightarrow> ('e, 'v, nat \<times> 'c axes) exc" where
  "plot_feature_importance import_pyplot subplots COLORS predict_fn rand data_set y_true
       ascending ax =
     (case import_pyplot of
        ImportError \<Rightarrow> exc_raise MatplotlibUnavailableError
      | RuntimeError \<Rightarrow> exc_raise MatplotlibDisplayError
      | Other_exception e \<Rightarrow> exc_raise (Raised e)
      | Imported \<Rightarrow>
          exc_bind (feature_importance predict_fn rand data_set ascending y_true)
            (\<lambda>importances.
          exc_bind (case ax of
                      None \<Rightarrow> exc_lift (case subplots of
                                          Inl e \<Rightarrow> Inl (Raised e)
                                        | Inr fa \<Rightarrow> Inr fa)
                    | Some a \<Rightarrow> exc_return (figure a, a)) (\<lambda>(f, ax').
          case COLORS of
            [] \<Rightarrow> exc_raise StopIteration
          | color # _ \<Rightarrow>
              exc_return (f, ax'\<lparr>barh := barh ax' @
                [(if ascending then sort_values False importances
                  else sort_values True importances, color)]\<rparr>))))"

section \<open>Notions used to state the properties\<close>

text \<open>The calls of \<^verbatim>\<open>predict\<close> made between two states.\<close>

definition new_calls :: "'v state \<Rightarrow> 'v state \<Rightarrow> (nat \<times> 'v data_frame) list" where
  "new_calls s s' = drop (length (predict_calls s)) (predict_calls s')"

text \<open>
  The score of one feature computed from the model's own operations: the column is read
  from the frame \<open>fr\<close>, the samples are drawn at position \<open>pos\<close> of the random source.
\<close>

definition step_score ::
  "('v data_frame \<Rightarrow> 'e + ndarray) \<Rightarrow> (nat \<Rightarrow> nat) \<Rightarrow> 'v data_frame \<Rightarrow> ndarray \<Rightarrow> nat \<Rightarrow> nat \<Rightarrow>
   string \<Rightarrow> fl option" where
  "step_score predict rand fr original_predictions n pos feature_id =
     (case map_of (fr_columns fr) feature_id of
        None \<Rightarrow> None
      | Some col \<Rightarrow>
          (case predict (frame_set_column fr feature_id (draw_samples rand pos col n)) of
             Inl e \<Rightarrow> None
           | Inr new_predictions \<Rightarrow>
               map_option (\<lambda>d. np_mean (np_std_axis0 d))
                 (nd_sub new_predictions original_predictions)))"

text \<open>
  The score in the words of the specification: \<open>delta\<close> is the elementwise difference of the
  new predictions and the baseline, given here as the list of its output columns, each a
  list over the rows; the score is the mean, across the output columns, of the standard
  deviation of \<open>delta\<close> across rows.
\<close>

fun spec_delta_columns :: "ndarray \<Rightarrow> ndarray \<Rightarrow> real list list option" where
  "spec_delta_columns (Arr1 xs) (Arr1 ys) =
     (if length xs = length ys
      then Some [map (\<lambda>i. xs ! i - ys ! i) [0..<length xs]] else None)"
| "spec_delta_columns (Arr2 k rs) (Arr2 k' rs') =
     (if k = k' \<and> length rs = length rs'
         \<and> list_all (\<lambda>r. length r = k) rs \<and> list_all (\<lambda>r. length r = k) rs'
      then Some (map (\<lambda>j. map (\<lambda>i. rs ! i ! j - rs' ! i ! j) [0..<length rs]) [0..<k])
      else None)"
| "spec_delta_columns a b = None"

definition spec_score :: "real list list \<Rightarrow> fl" where
  "spec_score delta_columns =
     (if delta_columns = [] then NaN
      else fl_div (fl_sum (map std_pop delta_columns)) (Fin (real (length delta_columns))))"

text \<open>The state \<open>s\<close> with the calls \<open>pre\<close> recorded before its own.\<close>

definition relog :: "(nat \<times> 'v data_frame) list \<Rightarrow> 'v state \<Rightarrow> 'v state" where
  "relog pre s = s\<lparr>predict_calls := pre @ predict_calls s\<rparr>"

text \<open>A score that is a non-negative number; a score that is one or is not-a-number.\<close>

fun is_nonneg :: "fl \<Rightarrow> bool" where
  "is_nonneg (Fin r) = (0 \<le> r)"
| "is_nonneg v = False"

fun nonneg_or_nan :: "fl \<Rightarrow> bool" where
  "nonneg_or_nan (Fin r) = (0 \<le> r)"
| "nonneg_or_nan NaN = True"
| "nonneg_or_nan v = False"

fun fin_val :: "fl \<Rightarrow> real" where
  "fin_val (Fin r) = r"
| "fin_val v = 0"

text \<open>
  A dataset whose frame is in the store and has, for every feature identifier, a column
  with one value per row.
\<close>

definition wf_data_set :: "'v state \<Rightarrow> data_manager \<Rightarrow> bool" where
  "wf_data_set s ds =
     (data ds < next_ref s \<and>
      list_all (\<lambda>f. case map_of (fr_columns (heap s (data ds))) f of
                     None \<Rightarrow> False
                   | Some col \<Rightarrow> length col = length (fr_index (heap s (data ds))))
        (feature_ids ds))"

text \<open>The errors that the importance engine can report.\<close>

fun engine_error :: "'e error \<Rightarrow> bool" where
  "engine_error (Raised e) = True"
| "engine_error (KeyError f) = True"
| "engine_error Length_mismatch = True"
| "engine_error Empty_population = True"
| "engine_error Shape_mismatch = True"
| "engine_error StopIteration = False"
| "engine_error MatplotlibUnavailableError = False"
| "engine_error MatplotlibDisplayError = False"



section \<open>Example inputs\<close>

text \<open>
  A dataset of two rows and two features, stored at reference 0, and one of two rows and no
  feature; a prediction function that returns the column \<open>A\<close> of its input and fails when
  there is none; one that returns the same array for every input; a random source that
  always picks the first value of a column.
\<close>

definition ex_frame :: "real data_frame" where
  "ex_frame = \<lparr>fr_index = [0, 1], fr_columns = [(''A'', [0, 2]), (''B'', [5, 7])]\<rparr>"

definition ex_state :: "real state" where
  "ex_state = \<lparr>heap = (\<lambda>r. ex_frame), next_ref = 1, rng_pos = 0, predict_calls = []\<rparr>"

definition ex_data_set :: data_manager where
  "ex_data_set = \<lparr>data = 0, feature_ids = [''A'', ''B''], index = [0, 1]\<rparr>"

definition ex_empty_frame :: "real data_frame" where
  "ex_empty_frame = \<lparr>fr_index = [0, 1], fr_columns = []\<rparr>"

definition ex_empty_state :: "real state" where
  "ex_empty_state =
     \<lparr>heap = (\<lambda>r. ex_empty_frame), next_ref = 1, rng_pos = 0, predict_calls = []\<rparr>"

definition ex_no_features :: data_manager where
  "ex_no_features = \<lparr>data = 0, feature_ids = [], index = [0, 1]\<rparr>"

definition ex_predict_A :: "real data_frame \<Rightarrow> unit + ndarray" where
  "ex_predict_A fr =
     (case map_of (fr_columns fr) ''A'' of None \<Rightarrow> Inl () | Some c \<Rightarrow> Inr (Arr1 c))"

definition ex_predict_const :: "real data_frame \<Rightarrow> unit + ndarray" where
  "ex_predict_const fr = Inr (Arr1 [1, 1])"

definition ex_rand :: "nat \<Rightarrow> nat" where
  "ex_rand i = 0"

text \<open>
  Further prediction functions: the sum of the columns \<open>A\<close> and \<open>B\<close>; an array of two rows
  and no output column, for every input; a constant one whose exceptions are strings, for
  the presentation adapter.
\<close>

definition ex_predict_sum :: "real data_frame \<Rightarrow> unit + ndarray" where
  "ex_predict_sum fr =
     (case map_of (fr_columns fr) ''A'' of
        None \<Rightarrow> Inl ()
      | Some a \<Rightarrow>
          (case map_of (fr_columns fr) ''B'' of
             None \<Rightarrow> Inl ()
           | Some b \<Rightarrow> Inr (Arr1 (map2 (+) a b))))"

definition ex_predict_no_output :: "real data_frame \<Rightarrow> unit + ndarray" where
  "ex_predict_no_output fr = Inr (Arr2 0 [[], []])"

definition ex_predict_plot :: "real data_frame \<Rightarrow> string + ndarray" where
  "ex_predict_plot fr = Inr (Arr1 [1, 1])"

section \<open>Sequencing\<close>

lemma exc_bind_Inr_iff:
  "exc_bind m f s = (Inr y, s') \<longleftrightarrow> (\<exists>x s1. m s = (Inr x, s1) \<and> f x s1 = (Inr y, s'))"
  by (auto simp: exc_bind_def split: prod.splits sum.splits)

lemma exc_bind_cases:
  obtains (fail) e s1 where "m s = (Inl e, s1)" "exc_bind m f s = (Inl e, s1)"
        | (ok) x s1 where "m s = (Inr x, s1)" "exc_bind m f s = f x s1"
proof (cases "m s")
  case (Pair r s1)
  then show ?thesis
    by (cases r) (auto intro: fail ok simp: exc_bind_def)
qed

section \<open>One pass of the loop\<close>

lemma frame_set_column_same:
  "map_of (fr_columns fr) f = Some col \<Longrightarrow> frame_set_column fr f col = fr"
  by (simp add: frame_set_column_def AList.update_triv)

lemma perturb_feature_Inr:
  assumes "perturb_feature predict rand ds cp orig n f s = (Inr imp, s')"
    and "data ds \<noteq> data cp"
  shows "\<exists>col p delta.
      map_of (fr_columns (heap s (data ds))) f = Some col
    \<and> n = length (fr_index (heap s (data cp)))
    \<and> length col = length (fr_index (heap s (data cp)))
    \<and> predict (frame_set_column (heap s (data cp)) f (draw_samples rand (rng_pos s) col n)) = Inr p
    \<and> nd_sub p orig = Some delta
    \<and> imp = np_mean (np_std_axis0 delta)
    \<and> s' = s\<lparr>heap := (heap s)(data cp := frame_set_column (heap s (data cp)) f col),
              rng_pos := rng_pos s + n,
              predict_calls := predict_calls s @
                [(data cp, frame_set_column (heap s (data cp)) f (draw_samples rand (rng_pos s) col n))]\<rparr>"
  using assms
  unfolding perturb_feature_def generate_column_sample_def dm_getitem_def dm_setitem_def
    call_predict_def exc_of_option_def exc_return_def
  apply (simp add: exc_bind_Inr_iff Let_def split: option.splits if_splits sum.splits)
  apply (auto simp: draw_samples_def frame_set_column_def split: option.splits if_splits sum.splits)
  done

lemma perturb_feature_restores:
  assumes "perturb_feature predict rand ds cp orig n f s = (Inr imp, s')"
    and "data ds \<noteq> data cp"
    and "heap s (data cp) = heap s (data ds)"
  shows "heap s' = heap s"
    and "next_ref s' = next_ref s"
    and "rng_pos s' = rng_pos s + n"
    and "n = length (fr_index (heap s (data ds)))"
    and "step_score predict rand (heap s (data ds)) orig n (rng_pos s) f = Some imp"
    and "\<exists>fr. predict_calls s' = predict_calls s @ [(data cp, fr)]"
proof -
  from perturb_feature_Inr [OF assms(1,2)] obtain col p delta where
    col: "map_of (fr_columns (heap s (data ds))) f = Some col" and
    n: "n = length (fr_index (heap s (data cp)))" and
    p: "predict (frame_set_column (heap s (data cp)) f (draw_samples rand (rng_pos s) col n)) = Inr p" and
    d: "nd_sub p orig = Some delta" and
    imp: "imp = np_mean (np_std_axis0 delta)" and
    s': "s' = s\<lparr>heap := (heap s)(data cp := frame_set_column (heap s (data cp)) f col),
              rng_pos := rng_pos s + n,
              predict_calls := predict_calls s @
                [(data cp, frame_set_column (heap s (data cp)) f (draw_samples rand (rng_pos s) col n))]\<rparr>"
    by blast
  have same: "frame_set_column (heap s (data cp)) f col = heap s (data cp)"
    using col assms(3) by (simp add: frame_set_column_same)
  show "heap s' = heap s" by (simp add: s' same)
  show "next_ref s' = next_ref s" by (simp add: s')
  show "rng_pos s' = rng_pos s + n" by (simp add: s')
  show "n = length (fr_index (heap s (data ds)))" using n assms(3) by simp
  show "step_score predict rand (heap s (data ds)) orig n (rng_pos s) f = Some imp"
    using col p d imp assms(3) by (simp add: step_score_def)
  show "\<exists>fr. predict_calls s' = predict_calls s @ [(data cp, fr)]"
    by (simp add: s')
qed

lemma step_score_Some:
  assumes "step_score predict rand fr orig n pos f = Some v"
  shows "\<exists>col p d. map_of (fr_columns fr) f = Some col
      \<and> predict (frame_set_column fr f (draw_samples rand pos col n)) = Inr p
      \<and> nd_sub p orig = Some d \<and> v = np_mean (np_std_axis0 d)"
  using assms by (auto simp: step_score_def split: option.splits sum.splits)

text \<open>Whatever the outcome of a pass, it writes to the working copy's frame only.\<close>

lemma perturb_feature_frame:
  assumes "perturb_feature predict rand ds cp orig n f s = (r, s')"
  shows "(\<forall>a. a \<noteq> data cp \<longrightarrow> heap s' a = heap s a) \<and> next_ref s' = next_ref s
       \<and> (\<exists>new. predict_calls s' = predict_calls s @ new \<and> (\<forall>e\<in>set new. fst e = data cp))"
  using assms
  unfolding perturb_feature_def generate_column_sample_def dm_getitem_def dm_setitem_def
    call_predict_def exc_of_option_def exc_return_def exc_bind_def
  by (auto simp: Let_def split: option.splits if_splits sum.splits prod.splits)

section \<open>The loop\<close>

lemma importance_loop_frame:
  "importance_loop predict rand ds cp orig n fs imps s = (r, s') \<Longrightarrow>
   (\<forall>a. a \<noteq> data cp \<longrightarrow> heap s' a = heap s a) \<and> next_ref s' = next_ref s
   \<and> (\<exists>new. predict_calls s' = predict_calls s @ new \<and> (\<forall>e\<in>set new. fst e = data cp))"
proof (induction fs arbitrary: imps s)
  case Nil
  then show ?case by (simp add: exc_return_def)
next
  case (Cons f fs)
  let ?m = "perturb_feature predict rand ds cp orig n f"
  show ?case
  proof (cases "?m s")
    case (Pair r1 s1)
    note step = perturb_feature_frame [OF Pair]
    show ?thesis
    proof (cases r1)
      case (Inl e)
      with Pair Cons.prems have "s' = s1" by (simp add: exc_bind_def)
      with step show ?thesis by simp
    next
      case (Inr imp)
      with Pair Cons.prems have
        "importance_loop predict rand ds cp orig n fs (AList.update f imp imps) s1 = (r, s')"
        by (simp add: exc_bind_def)
      from Cons.IH [OF this] step show ?thesis by auto
    qed
  qed
qed

lemma importance_loop_Inr:
  assumes "importance_loop predict rand ds cp orig n fs imps s = (Inr res, s')"
    and "data ds \<noteq> data cp"
    and "heap s (data cp) = heap s (data ds)"
  shows "heap s' = heap s \<and> rng_pos s' = rng_pos s + length fs * n
       \<and> (\<exists>new. predict_calls s' = predict_calls s @ new \<and> length new = length fs)
       \<and> fst ` set res = fst ` set imps \<union> set fs
       \<and> (distinct (map fst imps) \<longrightarrow> distinct (map fst res))"
  using assms
proof (induction fs arbitrary: imps s)
  case Nil
  then show ?case by (simp add: exc_return_def)
next
  case (Cons f fs)
  from Cons.prems(1) obtain imp s1 where
    step: "perturb_feature predict rand ds cp orig n f s = (Inr imp, s1)" and
    rest: "importance_loop predict rand ds cp orig n fs (AList.update f imp imps) s1 = (Inr res, s')"
    by (auto simp: exc_bind_Inr_iff)
  note r = perturb_feature_restores [OF step Cons.prems(2,3)]
  have inv: "heap s1 (data cp) = heap s1 (data ds)"
    using r(1) Cons.prems(3) by simp
  from Cons.IH [OF rest Cons.prems(2) inv] r show ?case
    by (auto simp: AList.dom_update AList.distinct_update)
qed

lemma importance_loop_scores:
  assumes "importance_loop predict rand ds cp orig n fs imps s = (Inr res, s')"
    and "data ds \<noteq> data cp"
    and "heap s (data cp) = heap s (data ds)"
    and "distinct fs"
  shows "(\<forall>i<length fs. \<exists>v. map_of res (fs ! i) = Some v \<and>
            step_score predict rand (heap s (data ds)) orig n (rng_pos s + i * n) (fs ! i) = Some v)
       \<and> (\<forall>g. g \<notin> set fs \<longrightarrow> map_of res g = map_of imps g)"
  using assms
proof (induction fs arbitrary: imps s)
  case Nil
  then show ?case by (simp add: exc_return_def)
next
  case (Cons f fs)
  from Cons.prems(1) obtain imp s1 where
    step: "perturb_feature predict rand ds cp orig n f s = (Inr imp, s1)" and
    rest: "importance_loop predict rand ds cp orig n fs (AList.update f imp imps) s1 = (Inr res, s')"
    by (auto simp: exc_bind_Inr_iff)
  note r = perturb_feature_restores [OF step Cons.prems(2,3)]
  have inv: "heap s1 (data cp) = heap s1 (data ds)"
    using r(1) Cons.prems(3) by simp
  from Cons.prems(4) have dist: "distinct fs" and notin: "f \<notin> set fs" by auto
  note IH = Cons.IH [OF rest Cons.prems(2) inv dist]
  have head: "map_of res f = Some imp"
    using IH notin by (simp add: AList.update_conv')
  have other: "\<forall>g. g \<notin> set (f # fs) \<longrightarrow> map_of res g = map_of imps g"
    using IH by (auto simp: AList.update_conv')
  have each: "\<exists>v. map_of res ((f # fs) ! i) = Some v \<and>
            step_score predict rand (heap s (data ds)) orig n (rng_pos s + i * n) ((f # fs) ! i)
              = Some v" if "i < length (f # fs)" for i
  proof (cases i)
    case 0
    then show ?thesis using head r(5) by simp
  next
    case (Suc j)
    with that have "j < length fs" by simp
    with IH obtain v where *: "map_of res (fs ! j) = Some v"
      and **: "step_score predict rand (heap s1 (data ds)) orig n (rng_pos s1 + j * n) (fs ! j)
                 = Some v" by blast
    have pos: "rng_pos s1 + j * n = rng_pos s + Suc j * n"
      using r(3) by simp
    have "step_score predict rand (heap s (data ds)) orig n (rng_pos s + Suc j * n) (fs ! j)
            = Some v"
      using ** unfolding pos r(1) .
    with * show ?thesis unfolding Suc nth_Cons_Suc by blast
  qed
  from each other show ?case by blast
qed

section \<open>The baseline, the working copy and the loop together\<close>

text \<open>The state in which the loop starts, given the state \<open>s1\<close> after the baseline.\<close>

lemma raw_importances_unfold:
  "raw_importances predict rand ds y s =
     (case (case y of None \<Rightarrow> call_predict predict (data ds) s | Some b \<Rightarrow> (Inr b, s)) of
        (Inl e, s1) \<Rightarrow> (Inl e, s1)
      | (Inr base, s1) \<Rightarrow>
          importance_loop predict rand ds
            \<lparr>data = next_ref s1, feature_ids = feature_ids ds, index = index ds\<rparr>
            base (shape0 base) (feature_ids ds) []
            (s1\<lparr>heap := (heap s1)(next_ref s1 := heap s1 (data ds)),
                next_ref := Suc (next_ref s1)\<rparr>))"
  by (cases y)
     (auto simp: raw_importances_def exc_bind_def exc_return_def DataManager_def Let_def
           split: prod.splits sum.splits)

lemma call_predict_apply:
  "call_predict predict r s =
     ((case predict (heap s r) of Inl e \<Rightarrow> Inl (Raised e) | Inr a \<Rightarrow> Inr a),
      s\<lparr>predict_calls := predict_calls s @ [(r, heap s r)]\<rparr>)"
  by (simp add: call_predict_def Let_def split: sum.splits)

lemma new_calls_append [simp]:
  "predict_calls s' = predict_calls s @ new \<Longrightarrow> new_calls s s' = new"
  by (simp add: new_calls_def)

lemma raw_importances_frame:
  assumes "raw_importances predict rand ds y (s::'v state) = (r, s')"
    and "data ds < next_ref s"
  shows "\<forall>a<next_ref s. heap s' a = heap s a"
    and "\<exists>new. predict_calls s' = predict_calls s @ new"
    and "y \<noteq> None \<Longrightarrow> \<forall>e\<in>set (new_calls s s'). fst e = next_ref s"
    and "y = None \<Longrightarrow> \<exists>rest. new_calls s s' = (data ds, heap s (data ds)) # rest
                          \<and> (\<forall>e\<in>set rest. fst e = next_ref s)"
proof -
  let ?cp = "\<lambda>s1. \<lparr>data = next_ref s1, feature_ids = feature_ids ds, index = index ds\<rparr>"
  let ?start = "\<lambda>s1::'v state. s1\<lparr>heap := (heap s1)(next_ref s1 := heap s1 (data ds)),
                next_ref := Suc (next_ref s1)\<rparr>"
  have loop: "(\<forall>a<next_ref s1. heap s2 a = heap s1 a)
        \<and> (\<exists>new. predict_calls s2 = predict_calls s1 @ new \<and> (\<forall>e\<in>set new. fst e = next_ref s1))"
    if "importance_loop predict rand ds (?cp s1) base n fs imps (?start s1) = (r2, s2)"
    for s1 s2 base n fs imps r2
    using importance_loop_frame [OF that] by auto
  have all: "(\<forall>a<next_ref s. heap s' a = heap s a)
     \<and> (\<exists>new. predict_calls s' = predict_calls s @ new)
     \<and> (y \<noteq> None \<longrightarrow> (\<forall>e\<in>set (new_calls s s'). fst e = next_ref s))
     \<and> (y = None \<longrightarrow> (\<exists>rest. new_calls s s' = (data ds, heap s (data ds)) # rest
                          \<and> (\<forall>e\<in>set rest. fst e = next_ref s)))"
  proof (cases y)
    case (Some b)
    with assms(1) have
      "importance_loop predict rand ds (?cp s) b (shape0 b) (feature_ids ds) [] (?start s) = (r, s')"
      by (simp add: raw_importances_unfold)
    from loop [OF this] Some show ?thesis by auto
  next
    case None
    let ?s1 = "s\<lparr>predict_calls := predict_calls s @ [(data ds, heap s (data ds))]\<rparr>"
    show ?thesis
    proof (cases "predict (heap s (data ds))")
      case (Inl e)
      with None assms(1) have "s' = ?s1"
        by (simp add: raw_importances_unfold call_predict_apply)
      with None show ?thesis by simp
    next
      case (Inr base)
      with None assms(1) have
        "importance_loop predict rand ds (?cp ?s1) base (shape0 base) (feature_ids ds) []
           (?start ?s1) = (r, s')"
        by (simp add: raw_importances_unfold call_predict_apply)
      from loop [OF this] None show ?thesis by auto
    qed
  qed
  from all show "\<forall>a<next_ref s. heap s' a = heap s a" by blast
  from all show "\<exists>new. predict_calls s' = predict_calls s @ new" by blast
  from all show "y \<noteq> None \<Longrightarrow> \<forall>e\<in>set (new_calls s s'). fst e = next_ref s" by blast
  from all show "y = None \<Longrightarrow> \<exists>rest. new_calls s s' = (data ds, heap s (data ds)) # rest
                          \<and> (\<forall>e\<in>set rest. fst e = next_ref s)" by blast
qed

lemma raw_importances_Inr:
  assumes "raw_importances predict rand ds y (s::'v state) = (Inr raw, s')"
    and "data ds < next_ref s"
  shows "\<exists>base. (case y of None \<Rightarrow> predict (heap s (data ds)) | Some b \<Rightarrow> Inr b) = Inr base
      \<and> heap s' = (heap s)(next_ref s := heap s (data ds))
      \<and> rng_pos s' = rng_pos s + length (feature_ids ds) * shape0 base
      \<and> length (new_calls s s') = length (feature_ids ds) + (if y = None then 1 else 0)
      \<and> fst ` set raw = set (feature_ids ds)
      \<and> distinct (map fst raw)
      \<and> (distinct (feature_ids ds) \<longrightarrow>
           (\<forall>i<length (feature_ids ds).
              \<exists>v. map_of raw (feature_ids ds ! i) = Some v \<and>
                step_score predict rand (heap s (data ds)) base (shape0 base)
                  (rng_pos s + i * shape0 base) (feature_ids ds ! i) = Some v))"
proof -
  let ?cp = "\<lambda>s1. \<lparr>data = next_ref s1, feature_ids = feature_ids ds, index = index ds\<rparr>"
  let ?start = "\<lambda>s1::'v state. s1\<lparr>heap := (heap s1)(next_ref s1 := heap s1 (data ds)),
                next_ref := Suc (next_ref s1)\<rparr>"
  have loop: "heap s' = (heap s1)(next_ref s1 := heap s1 (data ds))
      \<and> rng_pos s' = rng_pos s1 + length (feature_ids ds) * shape0 base
      \<and> (\<exists>new. predict_calls s' = predict_calls s1 @ new \<and> length new = length (feature_ids ds))
      \<and> fst ` set raw = set (feature_ids ds)
      \<and> distinct (map fst raw)
      \<and> (distinct (feature_ids ds) \<longrightarrow>
           (\<forall>i<length (feature_ids ds).
              \<exists>v. map_of raw (feature_ids ds ! i) = Some v \<and>
                step_score predict rand (heap s1 (data ds)) base (shape0 base)
                  (rng_pos s1 + i * shape0 base) (feature_ids ds ! i) = Some v))"
    if run: "importance_loop predict rand ds (?cp s1) base (shape0 base) (feature_ids ds) []
           (?start s1) = (Inr raw, s')"
      and alloc: "data ds < next_ref s1"
    for s1 base
  proof -
    have ne: "data ds \<noteq> data (?cp s1)" using alloc by simp
    have inv: "heap (?start s1) (data (?cp s1)) = heap (?start s1) (data ds)"
      using alloc by simp
    from importance_loop_Inr [OF run ne inv]
    have a: "heap s' = (heap s1)(next_ref s1 := heap s1 (data ds))"
      and b: "rng_pos s' = rng_pos s1 + length (feature_ids ds) * shape0 base"
      and c: "\<exists>new. predict_calls s' = predict_calls s1 @ new \<and> length new = length (feature_ids ds)"
      and d: "fst ` set raw = set (feature_ids ds)"
      and e: "distinct (map fst raw)"
      by simp_all
    have f: "\<forall>i<length (feature_ids ds).
              \<exists>v. map_of raw (feature_ids ds ! i) = Some v \<and>
                step_score predict rand (heap s1 (data ds)) base (shape0 base)
                  (rng_pos s1 + i * shape0 base) (feature_ids ds ! i) = Some v"
      if "distinct (feature_ids ds)"
      using importance_loop_scores [OF run ne inv that] alloc by simp
    from a b c d e f show ?thesis by blast
  qed
  show ?thesis
  proof (cases y)
    case (Some b)
    with assms(1) have
      "importance_loop predict rand ds (?cp s) b (shape0 b) (feature_ids ds) [] (?start s)
         = (Inr raw, s')"
      by (simp add: raw_importances_unfold)
    from loop [OF this assms(2)] Some show ?thesis by auto
  next
    case None
    let ?s1 = "s\<lparr>predict_calls := predict_calls s @ [(data ds, heap s (data ds))]\<rparr>"
    show ?thesis
    proof (cases "predict (heap s (data ds))")
      case (Inl e)
      with None assms(1) show ?thesis
        by (simp add: raw_importances_unfold call_predict_apply)
    next
      case (Inr base)
      with None assms(1) have
        "importance_loop predict rand ds (?cp ?s1) base (shape0 base) (feature_ids ds) []
           (?start ?s1) = (Inr raw, s')"
        by (simp add: raw_importances_unfold call_predict_apply)
      from loop [OF this] assms(2) None Inr show ?thesis by auto
    qed
  qed
qed

section \<open>Sorting and normalising\<close>

lemma mset_insort_score: "mset (insort_score x ys) = add_mset x (mset ys)"
  by (induction ys) auto

lemma mset_foldr_insort_score: "mset (foldr insort_score xs []) = mset xs"
  by (induction xs) (auto simp: mset_insort_score)

lemma mset_sort_values: "mset (sort_values ascending series) = mset series"
proof -
  have "mset (filter (\<lambda>p. snd p \<noteq> NaN) series) + mset (filter (\<lambda>p. snd p = NaN) series)
          = mset series"
    by (induction series) auto
  then show ?thesis
    by (simp add: sort_values_def Let_def mset_foldr_insort_score)
qed

lemma set_sort_values: "set (sort_values ascending series) = set series"
  using mset_sort_values [of ascending series] by (metis set_mset_mset)

lemma map_fst_series_div: "map fst (series_div series d) = map fst series"
  by (simp add: series_div_def comp_def)

lemma keys_normalize_sorted:
  "mset (map fst (normalize_sorted ascending importances)) = mset (map fst importances)"
proof -
  have "mset (map fst (sort_values ascending importances)) =
          image_mset fst (mset (sort_values ascending importances))"
    by simp
  also have "\<dots> = mset (map fst importances)"
    by (simp add: mset_sort_values)
  finally show ?thesis
    by (simp add: normalize_sorted_def Let_def map_fst_series_div)
qed

lemma importance_loop_append:
  "importance_loop predict rand ds cp orig n (xs @ ys) imps =
     exc_bind (importance_loop predict rand ds cp orig n xs imps)
       (\<lambda>imps'. importance_loop predict rand ds cp orig n ys imps')"
proof (induction xs arbitrary: imps)
  case Nil
  show ?case by (simp add: exc_bind_def exc_return_def)
next
  case (Cons x xs)
  show ?case
    by (rule ext) (simp add: Cons.IH exc_bind_def split: prod.splits sum.splits)
qed

lemma importance_loop_keys:
  "importance_loop predict rand ds cp orig n fs imps s = (Inr res, s') \<Longrightarrow>
   fst ` set res = fst ` set imps \<union> set fs
   \<and> (distinct (map fst imps) \<longrightarrow> distinct (map fst res))"
proof (induction fs arbitrary: imps s)
  case Nil
  then show ?case by (simp add: exc_return_def)
next
  case (Cons f fs)
  from Cons.prems obtain imp s1 where
    rest: "importance_loop predict rand ds cp orig n fs (AList.update f imp imps) s1 = (Inr res, s')"
    by (auto simp: exc_bind_Inr_iff)
  from Cons.IH [OF rest] show ?case
    by (auto simp: AList.dom_update AList.distinct_update)
qed

lemma raw_importances_keys:
  assumes "raw_importances predict rand ds y s = (Inr raw, s')"
  shows "fst ` set raw = set (feature_ids ds)" and "distinct (map fst raw)"
proof -
  from assms obtain cp base n s1 where
    "importance_loop predict rand ds cp base n (feature_ids ds) [] s1 = (Inr raw, s')"
    unfolding raw_importances_unfold
    by (auto split: prod.splits sum.splits)
  from importance_loop_keys [OF this]
  show "fst ` set raw = set (feature_ids ds)" and "distinct (map fst raw)" by simp_all
qed

lemma feature_importance_Inr_iff:
  "feature_importance predict rand ds ascending y s = (Inr series, s') \<longleftrightarrow>
     (\<exists>raw. raw_importances predict rand ds y s = (Inr raw, s')
        \<and> series = normalize_sorted ascending raw)"
  by (auto simp: feature_importance_def exc_bind_Inr_iff exc_return_def)

lemma snd_feature_importance:
  "snd (feature_importance predict rand ds ascending y s) = snd (raw_importances predict rand ds y s)"
  by (simp add: feature_importance_def exc_bind_def exc_return_def split: prod.splits sum.splits)

text \<open>
  C4. The keys of the returned series are exactly the feature identifiers of the dataset,
  each once.
\<close>

theorem keys_are_feature_ids:
  assumes "feature_importance predict rand data_set ascending y_true s = (Inr series, s')"
  shows "fst ` set series = set (feature_ids data_set) \<and> distinct (map fst series)"
proof -
  from assms obtain raw where
    raw: "raw_importances predict rand data_set y_true s = (Inr raw, s')" and
    series: "series = normalize_sorted ascending raw"
    by (auto simp: feature_importance_Inr_iff)
  have "mset (map fst series) = mset (map fst raw)"
    unfolding series by (rule keys_normalize_sorted)
  then have "set (map fst series) = set (map fst raw)"
    and "distinct (map fst series) = distinct (map fst raw)"
    by (metis set_mset_mset, metis mset_eq_imp_distinct_iff)
  with raw_importances_keys [OF raw] show ?thesis by simp
qed

lemmas ex_defs = ex_frame_def ex_state_def ex_data_set_def ex_predict_A_def ex_rand_def
  ex_predict_const_def ex_no_features_def ex_empty_frame_def ex_empty_state_def
  ex_predict_sum_def ex_predict_no_output_def ex_predict_plot_def

lemmas run_defs = raw_importances_def feature_importance_def
  exc_bind_def exc_return_def exc_of_option_def exc_raise_def call_predict_def DataManager_def
  perturb_feature_def generate_column_sample_def dm_getitem_def dm_setitem_def draw_samples_def
  frame_set_column_def std_pop_def mean_real_def fl_sum_def bc_dim_def bc_nth_def
  normalize_sorted_def sort_values_def series_sum_def series_div_def Let_def

lemma ex_run:
  "feature_importance ex_predict_A ex_rand ex_data_set True None ex_state =
     (Inr [(''B'', Fin 0), (''A'', Fin 1)],
      ex_state\<lparr>heap := (heap ex_state)(1 := ex_frame), next_ref := 2, rng_pos := 4,
        predict_calls := [(0, ex_frame),
          (1, frame_set_column ex_frame ''A'' [0, 0]),
          (1, frame_set_column ex_frame ''B'' [5, 5])]\<rparr>)"
  by (simp add: ex_defs run_defs)

lemma ex_raw:
  "raw_importances ex_predict_A ex_rand ex_data_set None ex_state =
     (Inr [(''A'', Fin 1), (''B'', Fin 0)],
      ex_state\<lparr>heap := (heap ex_state)(1 := ex_frame), next_ref := 2, rng_pos := 4,
        predict_calls := [(0, ex_frame),
          (1, frame_set_column ex_frame ''A'' [0, 0]),
          (1, frame_set_column ex_frame ''B'' [5, 5])]\<rparr>)"
  by (simp add: ex_defs run_defs)

theorem keys_are_feature_ids_witness:
  "fst ` set [(''B'', Fin 0), (''A'', Fin 1)] = set (feature_ids ex_data_set)
     \<and> distinct (map fst [(''B'', Fin 0), (''A'', Fin 1)])"
  using keys_are_feature_ids [OF ex_run] .

section \<open>The working copy\<close>

lemma raw_importances_loop:
  assumes "raw_importances predict rand ds y (s::'v state) = (Inr raw, s')"
  shows "\<exists>base s0. heap s0 = (heap s)(next_ref s := heap s (data ds))
      \<and> rng_pos s0 = rng_pos s
      \<and> predict_calls s0 = predict_calls s @
            (case y of None \<Rightarrow> [(data ds, heap s (data ds))] | Some b \<Rightarrow> [])
      \<and> (case y of None \<Rightarrow> predict (heap s (data ds)) | Some b \<Rightarrow> Inr b) = Inr base
      \<and> importance_loop predict rand ds
           \<lparr>data = next_ref s, feature_ids = feature_ids ds, index = index ds\<rparr>
           base (shape0 base) (feature_ids ds) [] s0 = (Inr raw, s')"
proof -
  let ?cp = "\<lparr>data = next_ref s, feature_ids = feature_ids ds, index = index ds\<rparr>"
  let ?start = "\<lambda>s1::'v state. s1\<lparr>heap := (heap s1)(next_ref s1 := heap s1 (data ds)),
                next_ref := Suc (next_ref s1)\<rparr>"
  let ?s1 = "s\<lparr>predict_calls := predict_calls s @ [(data ds, heap s (data ds))]\<rparr>"
  let ?base = "\<lambda>base. (case y of None \<Rightarrow> predict (heap s (data ds)) | Some b \<Rightarrow> Inr b)
                  = Inr base"
  let ?pre = "case y of None \<Rightarrow> [(data ds, heap s (data ds))] | Some b \<Rightarrow> []"
  have "\<exists>base s1. heap s1 = heap s \<and> next_ref s1 = next_ref s \<and> rng_pos s1 = rng_pos s
      \<and> predict_calls s1 = predict_calls s @ ?pre
      \<and> ?base base
      \<and> importance_loop predict rand ds ?cp base (shape0 base) (feature_ids ds) [] (?start s1)
            = (Inr raw, s')"
  proof (cases y)
    case (Some b)
    with assms have
      "importance_loop predict rand ds ?cp b (shape0 b) (feature_ids ds) [] (?start s)
         = (Inr raw, s')"
      by (simp add: raw_importances_unfold)
    moreover have "?base b" "predict_calls s = predict_calls s @ ?pre" using Some by simp_all
    ultimately show ?thesis by blast
  next
    case None
    with assms obtain base where "predict (heap s (data ds)) = Inr base" and
      "importance_loop predict rand ds ?cp base (shape0 base) (feature_ids ds) [] (?start ?s1)
         = (Inr raw, s')"
      by (auto simp: raw_importances_unfold call_predict_apply split: sum.splits)
    moreover have "heap ?s1 = heap s" "next_ref ?s1 = next_ref s" "rng_pos ?s1 = rng_pos s"
      by simp_all
    moreover have "predict_calls ?s1 = predict_calls s @ ?pre" using None by simp
    moreover have "?base base" using None \<open>predict (heap s (data ds)) = Inr base\<close> by simp
    ultimately show ?thesis by blast
  qed
  then obtain base s1 where s1: "heap s1 = heap s" "next_ref s1 = next_ref s"
      "rng_pos s1 = rng_pos s" "predict_calls s1 = predict_calls s @ ?pre"
    and base: "?base base" and
    run: "importance_loop predict rand ds ?cp base (shape0 base) (feature_ids ds) [] (?start s1)
            = (Inr raw, s')"
    by blast
  have "heap (?start s1) = (heap s)(next_ref s := heap s (data ds))"
    "rng_pos (?start s1) = rng_pos s"
    "predict_calls (?start s1) = predict_calls s @ ?pre"
    using s1 by simp_all
  with run base show ?thesis by blast
qed

lemma importance_loop_split:
  assumes "importance_loop predict rand ds cp orig n (pre @ f # post) imps s = (Inr res, s')"
    and "data ds \<noteq> data cp"
    and "heap s (data cp) = heap s (data ds)"
  shows "\<exists>imps_k s_k imp s_k'.
        importance_loop predict rand ds cp orig n pre imps s = (Inr imps_k, s_k)
      \<and> heap s_k = heap s
      \<and> perturb_feature predict rand ds cp orig n f s_k = (Inr imp, s_k')
      \<and> heap s_k' = heap s
      \<and> importance_loop predict rand ds cp orig n post (AList.update f imp imps_k) s_k'
          = (Inr res, s')
      \<and> heap s' = heap s"
proof -
  from assms(1) obtain imps_k s_k where
    pre: "importance_loop predict rand ds cp orig n pre imps s = (Inr imps_k, s_k)" and
    rest: "importance_loop predict rand ds cp orig n (f # post) imps_k s_k = (Inr res, s')"
    by (auto simp: importance_loop_append exc_bind_Inr_iff)
  from importance_loop_Inr [OF pre assms(2,3)] have hk: "heap s_k = heap s" by simp
  from rest obtain imp s_k' where
    step: "perturb_feature predict rand ds cp orig n f s_k = (Inr imp, s_k')" and
    post: "importance_loop predict rand ds cp orig n post (AList.update f imp imps_k) s_k'
             = (Inr res, s')"
    by (auto simp: exc_bind_Inr_iff)
  have invk: "heap s_k (data cp) = heap s_k (data ds)" using hk assms(3) by simp
  from perturb_feature_restores(1) [OF step assms(2) invk] hk
  have hk': "heap s_k' = heap s" by simp
  have invk': "heap s_k' (data cp) = heap s_k' (data ds)" using hk' assms(3) by simp
  from importance_loop_Inr [OF post assms(2) invk'] hk' have "heap s' = heap s" by simp
  with pre hk step hk' post show ?thesis by blast
qed

text \<open>
  C2. \<^verbatim>\<open>feature_importance\<close> writes to its working copy only, a frame stored at the fresh
  reference \<open>next_ref s\<close>. Whatever the outcome of the call, every frame that existed before
  it, the original dataset among them, is unchanged. On a call that returns, the loop
  starts from a store \<open>s0\<close> in which the working copy holds the original values; for every
  feature \<open>f\<close> of the dataset, the store just before \<open>f\<close> is perturbed, the store just after
  the pass for \<open>f\<close>, and the store at the end of the call are all equal to \<open>s0\<close>: the
  column of the working copy has been reset to the original values.
\<close>

theorem working_copy_restored_original_unchanged:
  fixes s :: "'v state"
  assumes "data data_set < next_ref s"
  shows "(\<forall>a<next_ref s.
            heap (snd (feature_importance predict rand data_set ascending y_true s)) a = heap s a)
    \<and> (\<forall>series s' pre f post.
          feature_importance predict rand data_set ascending y_true s = (Inr series, s')
          \<and> feature_ids data_set = pre @ f # post \<longrightarrow>
          (\<exists>cp base s0 imps_k s_k imp s_k' raw.
              data cp = next_ref s
            \<and> heap s0 = (heap s)(next_ref s := heap s (data data_set))
            \<and> importance_loop predict rand data_set cp base (shape0 base) pre [] s0
                = (Inr imps_k, s_k)
            \<and> heap s_k = heap s0
            \<and> perturb_feature predict rand data_set cp base (shape0 base) f s_k = (Inr imp, s_k')
            \<and> heap s_k' = heap s0
            \<and> importance_loop predict rand data_set cp base (shape0 base) post
                  (AList.update f imp imps_k) s_k' = (Inr raw, s')
            \<and> series = normalize_sorted ascending raw
            \<and> heap s' = heap s0))"
proof (intro conjI allI impI)
  fix a assume "a < next_ref s"
  obtain r s' where run: "raw_importances predict rand data_set y_true s = (r, s')"
    by (cases "raw_importances predict rand data_set y_true s")
  from raw_importances_frame(1) [OF run assms] \<open>a < next_ref s\<close> run
  show "heap (snd (feature_importance predict rand data_set ascending y_true s)) a = heap s a"
    by (simp add: snd_feature_importance)
next
  fix series s' pre f post
  assume h: "feature_importance predict rand data_set ascending y_true s = (Inr series, s')
          \<and> feature_ids data_set = pre @ f # post"
  then obtain raw where
    raw: "raw_importances predict rand data_set y_true s = (Inr raw, s')" and
    series: "series = normalize_sorted ascending raw"
    by (auto simp: feature_importance_Inr_iff)
  let ?cp = "\<lparr>data = next_ref s, feature_ids = feature_ids data_set, index = index data_set\<rparr>"
  from raw_importances_loop [OF raw] obtain base s0 where
    s0: "heap s0 = (heap s)(next_ref s := heap s (data data_set))" and
    loop: "importance_loop predict rand data_set ?cp base (shape0 base) (feature_ids data_set) [] s0
             = (Inr raw, s')"
    by blast
  have ne: "data data_set \<noteq> data ?cp" using assms by simp
  have inv: "heap s0 (data ?cp) = heap s0 (data data_set)" using assms s0 by simp
  from loop h have
    "importance_loop predict rand data_set ?cp base (shape0 base) (pre @ f # post) [] s0
       = (Inr raw, s')" by simp
  from importance_loop_split [OF this ne inv] obtain imps_k s_k imp s_k' where
    "importance_loop predict rand data_set ?cp base (shape0 base) pre [] s0 = (Inr imps_k, s_k)"
    "heap s_k = heap s0"
    "perturb_feature predict rand data_set ?cp base (shape0 base) f s_k = (Inr imp, s_k')"
    "heap s_k' = heap s0"
    "importance_loop predict rand data_set ?cp base (shape0 base) post
       (AList.update f imp imps_k) s_k' = (Inr raw, s')"
    "heap s' = heap s0"
    by blast
  moreover have "data ?cp = next_ref s" by simp
  ultimately show "\<exists>cp base s0 imps_k s_k imp s_k' raw.
              data cp = next_ref s
            \<and> heap s0 = (heap s)(next_ref s := heap s (data data_set))
            \<and> importance_loop predict rand data_set cp base (shape0 base) pre [] s0
                = (Inr imps_k, s_k)
            \<and> heap s_k = heap s0
            \<and> perturb_feature predict rand data_set cp base (shape0 base) f s_k = (Inr imp, s_k')
            \<and> heap s_k' = heap s0
            \<and> importance_loop predict rand data_set cp base (shape0 base) post
                  (AList.update f imp imps_k) s_k' = (Inr raw, s')
            \<and> series = normalize_sorted ascending raw
            \<and> heap s' = heap s0"
    using s0 series by blast
qed

theorem working_copy_restored_original_unchanged_witness:
  "data ex_data_set < next_ref ex_state
   \<and> heap (snd (feature_importance ex_predict_A ex_rand ex_data_set True None ex_state)) 0
       = ex_frame
   \<and> (\<exists>cp base s0 imps_k s_k imp s_k' raw.
          data cp = 1
        \<and> heap s0 = (heap ex_state)(1 := ex_frame)
        \<and> importance_loop ex_predict_A ex_rand ex_data_set cp base (shape0 base) [''A''] [] s0
            = (Inr imps_k, s_k)
        \<and> heap s_k = heap s0
        \<and> perturb_feature ex_predict_A ex_rand ex_data_set cp base (shape0 base) ''B'' s_k
            = (Inr imp, s_k')
        \<and> heap s_k' = heap s0
        \<and> importance_loop ex_predict_A ex_rand ex_data_set cp base (shape0 base) []
              (AList.update ''B'' imp imps_k) s_k'
            = (Inr raw, snd (feature_importance ex_predict_A ex_rand ex_data_set True None ex_state))
        \<and> [(''B'', Fin 0), (''A'', Fin 1)] = normalize_sorted True raw)"
proof -
  let ?s' = "snd (feature_importance ex_predict_A ex_rand ex_data_set True None ex_state)"
  have alloc: "data ex_data_set < next_ref ex_state"
    by (simp add: ex_defs)
  have ids: "feature_ids ex_data_set = [''A''] @ ''B'' # []"
    by (simp add: ex_defs)
  have run: "feature_importance ex_predict_A ex_rand ex_data_set True None ex_state
               = (Inr [(''B'', Fin 0), (''A'', Fin 1)], ?s')"
    by (simp add: ex_run)
  note inst = working_copy_restored_original_unchanged [OF alloc, of ex_predict_A ex_rand True None]
  from inst have "heap ?s' 0 = heap ex_state 0"
    using alloc by (simp add: ex_defs)
  moreover from inst run ids have "\<exists>cp base s0 imps_k s_k imp s_k' raw.
          data cp = next_ref ex_state
        \<and> heap s0 = (heap ex_state)(next_ref ex_state := heap ex_state (data ex_data_set))
        \<and> importance_loop ex_predict_A ex_rand ex_data_set cp base (shape0 base) [''A''] [] s0
            = (Inr imps_k, s_k)
        \<and> heap s_k = heap s0
        \<and> perturb_feature ex_predict_A ex_rand ex_data_set cp base (shape0 base) ''B'' s_k
            = (Inr imp, s_k')
        \<and> heap s_k' = heap s0
        \<and> importance_loop ex_predict_A ex_rand ex_data_set cp base (shape0 base) []
              (AList.update ''B'' imp imps_k) s_k' = (Inr raw, ?s')
        \<and> [(''B'', Fin 0), (''A'', Fin 1)] = normalize_sorted True raw"
    by blast
  ultimately show ?thesis using alloc by (simp add: ex_defs)
qed

section \<open>Counting the calls of the prediction function\<close>

lemma perturb_feature_one_call:
  "perturb_feature predict rand ds cp orig n f s = (Inr imp, s') \<Longrightarrow>
   \<exists>fr. predict_calls s' = predict_calls s @ [(data cp, fr)]"
  unfolding perturb_feature_def generate_column_sample_def dm_getitem_def dm_setitem_def
    call_predict_def exc_of_option_def exc_return_def exc_bind_def
  by (auto simp: Let_def split: option.splits if_splits sum.splits prod.splits)

lemma importance_loop_calls:
  "importance_loop predict rand ds cp orig n fs imps s = (Inr res, s') \<Longrightarrow>
   \<exists>new. predict_calls s' = predict_calls s @ new \<and> length new = length fs
     \<and> (\<forall>e\<in>set new. fst e = data cp)"
proof (induction fs arbitrary: imps s)
  case Nil
  then show ?case by (simp add: exc_return_def)
next
  case (Cons f fs)
  from Cons.prems obtain imp s1 where
    step: "perturb_feature predict rand ds cp orig n f s = (Inr imp, s1)" and
    rest: "importance_loop predict rand ds cp orig n fs (AList.update f imp imps) s1 = (Inr res, s')"
    by (auto simp: exc_bind_Inr_iff)
  from perturb_feature_one_call [OF step] obtain fr where
    one: "predict_calls s1 = predict_calls s @ [(data cp, fr)]" by blast
  from Cons.IH [OF rest] obtain new where
    "predict_calls s' = predict_calls s1 @ new" "length new = length fs"
    "\<forall>e\<in>set new. fst e = data cp" by blast
  with one have "predict_calls s' = predict_calls s @ ((data cp, fr) # new)"
    "length ((data cp, fr) # new) = length (f # fs)"
    "\<forall>e\<in>set ((data cp, fr) # new). fst e = data cp" by simp_all
  then show ?case by blast
qed

text \<open>
  C8, as the code has it. On a call that returns, \<^verbatim>\<open>predict\<close> has been called once for every
  feature, on the working copy, and once more, first and on the dataset itself, when
  \<^verbatim>\<open>y_true\<close> is \<^verbatim>\<open>None\<close>: the number of calls is the number of features when \<^verbatim>\<open>y_true\<close> is
  given, and one more when it is not.
\<close>

theorem predict_call_count:
  fixes s :: "'v state"
  assumes "feature_importance predict rand data_set ascending y_true s = (Inr series, s')"
  shows "length (new_calls s s') =
           length (feature_ids data_set) + (if y_true = None then 1 else 0)
       \<and> (\<exists>new. new_calls s s' =
             (case y_true of None \<Rightarrow> [(data data_set, heap s (data data_set))] | Some y \<Rightarrow> [])
               @ new
           \<and> length new = length (feature_ids data_set)
           \<and> (\<forall>e\<in>set new. fst e = next_ref s))"
proof -
  from assms obtain raw where
    raw: "raw_importances predict rand data_set y_true s = (Inr raw, s')"
    by (auto simp: feature_importance_Inr_iff)
  let ?cp = "\<lambda>s1::'v state.
    \<lparr>data = next_ref s1, feature_ids = feature_ids data_set, index = index data_set\<rparr>"
  let ?start = "\<lambda>s1::'v state. s1\<lparr>heap := (heap s1)(next_ref s1 := heap s1 (data data_set)),
                next_ref := Suc (next_ref s1)\<rparr>"
  show ?thesis
  proof (cases y_true)
    case (Some b)
    with raw have
      "importance_loop predict rand data_set (?cp s) b (shape0 b) (feature_ids data_set) []
         (?start s) = (Inr raw, s')"
      by (simp add: raw_importances_unfold)
    from importance_loop_calls [OF this] obtain new where
      "predict_calls s' = predict_calls s @ new" "length new = length (feature_ids data_set)"
      "\<forall>e\<in>set new. fst e = next_ref s" by auto
    with Some show ?thesis by simp
  next
    case None
    let ?s1 = "s\<lparr>predict_calls := predict_calls s @ [(data data_set, heap s (data data_set))]\<rparr>"
    from None raw obtain base where
      "importance_loop predict rand data_set (?cp ?s1) base (shape0 base) (feature_ids data_set) []
         (?start ?s1) = (Inr raw, s')"
      by (auto simp: raw_importances_unfold call_predict_apply split: sum.splits)
    from importance_loop_calls [OF this] obtain new where
      "predict_calls s' = predict_calls s @ (data data_set, heap s (data data_set)) # new"
      "length new = length (feature_ids data_set)"
      "\<forall>e\<in>set new. fst e = next_ref s" by auto
    with None show ?thesis by simp
  qed
qed

theorem predict_call_count_witness:
  "length (new_calls ex_state
      (snd (feature_importance ex_predict_A ex_rand ex_data_set True None ex_state))) = 3"
  using predict_call_count [OF ex_run] by (simp add: ex_run) (simp add: ex_defs)

text \<open>
  C8, as stated, fails when \<^verbatim>\<open>y_true\<close> is \<^verbatim>\<open>None\<close>: on the example dataset of two features
  the call returns after three calls of \<^verbatim>\<open>predict\<close>.
\<close>

theorem predict_once_per_feature_counterexample:
  "fst (feature_importance ex_predict_A ex_rand ex_data_set True None ex_state)
     = Inr [(''B'', Fin 0), (''A'', Fin 1)]
   \<and> length (new_calls ex_state
        (snd (feature_importance ex_predict_A ex_rand ex_data_set True None ex_state))) = 3
   \<and> length (feature_ids ex_data_set) = 2"
  by (simp add: ex_run new_calls_def) (simp add: ex_defs)

section \<open>No feature\<close>

text \<open>
  C9, as the code has it. On a dataset without feature columns the loop does nothing and the
  call returns the empty series, provided the baseline is there: \<^verbatim>\<open>y_true\<close> is given, or
  \<^verbatim>\<open>predict\<close> succeeds on the dataset. A failure of \<^verbatim>\<open>predict\<close> on the dataset propagates.
\<close>

theorem zero_features_empty_result:
  assumes "feature_ids data_set = []"
    and "y_true \<noteq> None \<or> (\<exists>a. predict (heap s (data data_set)) = Inr a)"
  shows "fst (feature_importance predict rand data_set ascending y_true s) = Inr []"
  using assms
  by (cases y_true)
     (auto simp: feature_importance_def raw_importances_unfold call_predict_apply exc_bind_def
        exc_return_def normalize_sorted_def sort_values_def series_div_def)

theorem zero_features_empty_result_witness:
  "fst (feature_importance ex_predict_const ex_rand ex_no_features True None ex_empty_state)
     = Inr []"
  using zero_features_empty_result
          [of ex_no_features None ex_predict_const ex_empty_state ex_rand True]
  by (simp add: ex_defs)

text \<open>
  C9, as stated, fails when \<^verbatim>\<open>y_true\<close> is \<^verbatim>\<open>None\<close> and \<^verbatim>\<open>predict\<close> fails on a dataset without
  columns: the failure reaches the caller.
\<close>

theorem zero_features_counterexample:
  "feature_ids ex_no_features = []
   \<and> fr_columns (heap ex_empty_state (data ex_no_features)) = []
   \<and> fst (feature_importance ex_predict_A ex_rand ex_no_features True None ex_empty_state)
       = Inl (Raised ())"
  by (simp add: ex_defs feature_importance_def raw_importances_unfold call_predict_apply
      exc_bind_def)

section \<open>The errors of the presentation adapter\<close>

lemma perturb_feature_error:
  "perturb_feature predict rand ds cp orig n f s = (Inl e, s') \<Longrightarrow> engine_error e"
  unfolding perturb_feature_def generate_column_sample_def dm_getitem_def dm_setitem_def
    call_predict_def exc_of_option_def exc_return_def exc_bind_def
  by (auto simp: Let_def split: option.splits if_splits sum.splits prod.splits)

lemma importance_loop_error:
  "importance_loop predict rand ds cp orig n fs imps s = (Inl e, s') \<Longrightarrow> engine_error e"
proof (induction fs arbitrary: imps s)
  case Nil
  then show ?case by (simp add: exc_return_def)
next
  case (Cons f fs)
  show ?case
  proof (cases rule: exc_bind_cases
      [of "perturb_feature predict rand ds cp orig n f" s
          "\<lambda>importance. importance_loop predict rand ds cp orig n fs
             (AList.update f importance imps)"])
    case (fail e1 s1)
    with Cons.prems perturb_feature_error [OF fail(1)] show ?thesis by simp
  next
    case (ok imp s1)
    with Cons.prems Cons.IH show ?thesis by simp
  qed
qed

lemma feature_importance_error:
  "feature_importance predict rand ds ascending y s = (Inl e, s') \<Longrightarrow> engine_error e"
  by (cases y)
     (auto simp: feature_importance_def raw_importances_unfold call_predict_apply exc_bind_def
        exc_return_def split: sum.splits prod.splits dest: importance_loop_error)

text \<open>
  C10, as the code has it. \<^verbatim>\<open>plot_feature_importance\<close> fails with
  \<^verbatim>\<open>MatplotlibUnavailableError\<close> exactly when the import of the plotting library raises
  \<^verbatim>\<open>ImportError\<close>, and with \<^verbatim>\<open>MatplotlibDisplayError\<close> exactly when the import raises
  \<^verbatim>\<open>RuntimeError\<close>, the way the library reports at import that it cannot open a display.
  The error is the result of the call, and the state is then as before the call: no
  prediction, no working copy, no random draw. When the import succeeds, no axes are given
  and the creation of the figure fails, the importance has been computed and the failure of
  \<^verbatim>\<open>pyplot.subplots\<close> is the result, as it was raised.
\<close>

theorem plot_import_errors:
  "(fst (plot_feature_importance import_pyplot subplots COLORS predict_fn rand data_set y_true
        ascending ax s) = Inl MatplotlibUnavailableError \<longleftrightarrow> import_pyplot = ImportError)
   \<and> (fst (plot_feature_importance import_pyplot subplots COLORS predict_fn rand data_set y_true
        ascending ax s) = Inl MatplotlibDisplayError \<longleftrightarrow> import_pyplot = RuntimeError)
   \<and> (import_pyplot = ImportError \<or> import_pyplot = RuntimeError \<longrightarrow>
        snd (plot_feature_importance import_pyplot subplots COLORS predict_fn rand data_set y_true
          ascending ax s) = s)
   \<and> (\<forall>e importances s1.
        import_pyplot = Imported \<and> ax = None \<and> subplots = Inl e
        \<and> feature_importance predict_fn rand data_set ascending y_true s = (Inr importances, s1)
        \<longrightarrow> plot_feature_importance import_pyplot subplots COLORS predict_fn rand data_set y_true
              ascending ax s = (Inl (Raised e), s1))"
proof (cases import_pyplot)
  case Imported
  let ?fi = "feature_importance predict_fn rand data_set ascending y_true"
  have "fst (plot_feature_importance import_pyplot subplots COLORS predict_fn rand data_set y_true
        ascending ax s) \<noteq> Inl MatplotlibUnavailableError
     \<and> fst (plot_feature_importance import_pyplot subplots COLORS predict_fn rand data_set y_true
        ascending ax s) \<noteq> Inl MatplotlibDisplayError"
  proof (cases "?fi s")
    case (Pair r s1)
    show ?thesis
    proof (cases r)
      case (Inl e)
      with Pair feature_importance_error [of predict_fn rand data_set ascending y_true s e s1]
      show ?thesis
        by (auto simp: plot_feature_importance_def Imported exc_bind_def)
    next
      case (Inr importances)
      with Pair show ?thesis
        by (auto simp: plot_feature_importance_def Imported exc_bind_def exc_lift_def
            exc_return_def exc_raise_def split: option.splits sum.splits list.splits)
    qed
  qed
  moreover have "plot_feature_importance import_pyplot subplots COLORS predict_fn rand data_set
        y_true ascending ax s = (Inl (Raised e), s1)"
    if "ax = None" "subplots = Inl e" "?fi s = (Inr importances, s1)" for e importances s1
    using that by (simp add: plot_feature_importance_def Imported exc_bind_def exc_lift_def)
  ultimately show ?thesis using Imported by simp
qed (simp_all add: plot_feature_importance_def exc_raise_def)

theorem plot_import_errors_witness:
  "fst (plot_feature_importance ImportError (Inl ()) ([]::nat list) ex_predict_A ex_rand
          ex_data_set None True None ex_state) = Inl MatplotlibUnavailableError
   \<and> snd (plot_feature_importance ImportError (Inl ()) ([]::nat list) ex_predict_A ex_rand
          ex_data_set None True None ex_state) = ex_state
   \<and> fst (plot_feature_importance RuntimeError (Inl ()) ([]::nat list) ex_predict_A ex_rand
          ex_data_set None True None ex_state) = Inl MatplotlibDisplayError
   \<and> snd (plot_feature_importance RuntimeError (Inl ()) ([]::nat list) ex_predict_A ex_rand
          ex_data_set None True None ex_state) = ex_state
   \<and> plot_feature_importance Imported (Inl ()) ([]::nat list) ex_predict_A ex_rand
          ex_data_set None True None ex_state
       = (Inl (Raised ()),
          ex_state\<lparr>heap := (heap ex_state)(1 := ex_frame), next_ref := 2, rng_pos := 4,
            predict_calls := [(0, ex_frame),
              (1, frame_set_column ex_frame ''A'' [0, 0]),
              (1, frame_set_column ex_frame ''B'' [5, 5])]\<rparr>)"
  using plot_import_errors [of ImportError "Inl ()" "[]::nat list" ex_predict_A ex_rand
          ex_data_set None True None ex_state]
        plot_import_errors [of RuntimeError "Inl ()" "[]::nat list" ex_predict_A ex_rand
          ex_data_set None True None ex_state]
        plot_import_errors [of Imported "Inl ()" "[]::nat list" ex_predict_A ex_rand
          ex_data_set None True None ex_state]
        ex_run
  by simp

text \<open>
  C10, as stated, fails when the plotting library loads and the display cannot be opened
  when the figure is created: \<^verbatim>\<open>pyplot.subplots\<close> is called outside the \<^verbatim>\<open>try\<close>, after the
  importance computation. With a successful import, no axes given and a creation of the
  figure that fails, the call has made its three predictions, and what it raises is the
  failure of \<^verbatim>\<open>pyplot.subplots\<close>, not \<^verbatim>\<open>MatplotlibDisplayError\<close>.
\<close>

theorem display_failure_counterexample:
  "plot_feature_importance Imported (Inl ''TclError'') [0::nat] ex_predict_plot ex_rand
          ex_data_set None True None ex_state
     = (Inl (Raised ''TclError''),
        ex_state\<lparr>heap := (heap ex_state)(1 := ex_frame), next_ref := 2, rng_pos := 4,
          predict_calls := [(0, ex_frame),
            (1, frame_set_column ex_frame ''A'' [0, 0]),
            (1, frame_set_column ex_frame ''B'' [5, 5])]\<rparr>)
   \<and> Raised ''TclError'' \<noteq> (MatplotlibDisplayError :: string error)
   \<and> predict_calls ex_state = []"
  by (simp add: plot_feature_importance_def exc_lift_def ex_defs run_defs)

section \<open>The baseline\<close>

text \<open>The record of earlier calls has no influence on a run, and is kept by it.\<close>

lemma perturb_feature_relog:
  "perturb_feature predict rand ds cp orig n f (relog pre s) =
     (fst (perturb_feature predict rand ds cp orig n f s),
      relog pre (snd (perturb_feature predict rand ds cp orig n f s)))"
  unfolding perturb_feature_def generate_column_sample_def dm_getitem_def dm_setitem_def
    call_predict_def exc_of_option_def exc_return_def exc_bind_def relog_def
  by (simp add: Let_def split: option.splits sum.splits)

lemma importance_loop_relog:
  "importance_loop predict rand ds cp orig n fs imps (relog pre s) =
     (fst (importance_loop predict rand ds cp orig n fs imps s),
      relog pre (snd (importance_loop predict rand ds cp orig n fs imps s)))"
proof (induction fs arbitrary: imps s)
  case Nil
  show ?case by (simp add: exc_return_def)
next
  case (Cons f fs)
  show ?case
  proof (cases "perturb_feature predict rand ds cp orig n f s")
    case (Pair r s1)
    then have *: "perturb_feature predict rand ds cp orig n f (relog pre s) = (r, relog pre s1)"
      by (simp add: perturb_feature_relog)
    show ?thesis
      by (cases r) (simp_all add: exc_bind_def Pair * Cons.IH)
  qed
qed

lemma raw_importances_relog:
  "raw_importances predict rand ds (Some b) (relog pre s) =
     (fst (raw_importances predict rand ds (Some b) s),
      relog pre (snd (raw_importances predict rand ds (Some b) s)))"
proof -
  have "(relog pre s)\<lparr>heap := (heap (relog pre s))
            (next_ref (relog pre s) := heap (relog pre s) (data ds)),
          next_ref := Suc (next_ref (relog pre s))\<rparr>
        = relog pre (s\<lparr>heap := (heap s)(next_ref s := heap s (data ds)),
                        next_ref := Suc (next_ref s)\<rparr>)"
    by (simp add: relog_def)
  moreover have "next_ref (relog pre s) = next_ref s"
    by (simp add: relog_def)
  ultimately show ?thesis
    by (simp add: raw_importances_unfold importance_loop_relog)
qed

lemma raw_importances_None:
  assumes "predict (heap s (data ds)) = Inr b"
  shows "raw_importances predict rand ds None s =
     raw_importances predict rand ds (Some b)
       (s\<lparr>predict_calls := predict_calls s @ [(data ds, heap s (data ds))]\<rparr>)"
  using assms by (simp add: raw_importances_unfold call_predict_apply)

lemma feature_importance_split:
  "feature_importance predict rand ds ascending y s =
     (map_sum id (normalize_sorted ascending) (fst (raw_importances predict rand ds y s)),
      snd (raw_importances predict rand ds y s))"
  by (simp add: feature_importance_def exc_bind_def exc_return_def split: prod.splits sum.splits)

text \<open>
  C6. With \<^verbatim>\<open>y_true\<close> given, \<^verbatim>\<open>predict\<close> is never called on the dataset itself, whatever the
  outcome: every call is on the working copy. When that call returns, \<^verbatim>\<open>y_true\<close> is the
  baseline: the number of samples is its number of rows, the raw score of every feature is
  \<^verbatim>\<open>np.mean(np.std(., axis=0))\<close> of the predictions on the perturbed dataset minus \<^verbatim>\<open>y_true\<close>,
  and the result is these scores sorted and normalised. With \<^verbatim>\<open>y_true = None\<close> the first
  call is on the dataset; when it fails, the failure is the result; when it returns \<open>b\<close>,
  the result is the one of the call with \<^verbatim>\<open>y_true = b\<close>, and the calls are that call on the
  dataset followed by the calls made with \<^verbatim>\<open>y_true = b\<close>. So a given \<^verbatim>\<open>y_true\<close> takes the
  place of the prediction on the unperturbed dataset, and of nothing else.
\<close>

theorem y_true_replaces_baseline:
  fixes s :: "'v state"
  assumes "data data_set < next_ref s"
  shows "(\<forall>e\<in>set (new_calls s
              (snd (feature_importance predict rand data_set ascending (Some y) s))).
            fst e \<noteq> data data_set)
    \<and> (\<forall>raw s'. raw_importances predict rand data_set (Some y) s = (Inr raw, s') \<longrightarrow>
          feature_importance predict rand data_set ascending (Some y) s
            = (Inr (normalize_sorted ascending raw), s')
        \<and> (distinct (feature_ids data_set) \<longrightarrow>
             (\<forall>i<length (feature_ids data_set). \<exists>col new_predictions d.
                 map_of (fr_columns (heap s (data data_set))) (feature_ids data_set ! i) = Some col
               \<and> predict (frame_set_column (heap s (data data_set)) (feature_ids data_set ! i)
                    (draw_samples rand (rng_pos s + i * shape0 y) col (shape0 y)))
                   = Inr new_predictions
               \<and> nd_sub new_predictions y = Some d
               \<and> map_of raw (feature_ids data_set ! i) = Some (np_mean (np_std_axis0 d)))))
    \<and> (\<forall>b. predict (heap s (data data_set)) = Inr b \<longrightarrow>
          fst (feature_importance predict rand data_set ascending None s)
            = fst (feature_importance predict rand data_set ascending (Some b) s)
        \<and> new_calls s (snd (feature_importance predict rand data_set ascending None s))
            = (data data_set, heap s (data data_set))
              # new_calls s (snd (feature_importance predict rand data_set ascending (Some b) s)))
    \<and> (\<forall>e. predict (heap s (data data_set)) = Inl e \<longrightarrow>
          feature_importance predict rand data_set ascending None s
            = (Inl (Raised e),
               s\<lparr>predict_calls := predict_calls s @ [(data data_set, heap s (data data_set))]\<rparr>))"
proof (intro conjI allI impI ballI)
  fix e assume e: "e \<in> set (new_calls s
              (snd (feature_importance predict rand data_set ascending (Some y) s)))"
  obtain r s' where run: "raw_importances predict rand data_set (Some y) s = (r, s')"
    by (cases "raw_importances predict rand data_set (Some y) s")
  from raw_importances_frame(3) [OF run assms] e run have "fst e = next_ref s"
    by (simp add: snd_feature_importance)
  with assms show "fst e \<noteq> data data_set" by simp
next
  fix raw s' assume run: "raw_importances predict rand data_set (Some y) s = (Inr raw, s')"
  then show "feature_importance predict rand data_set ascending (Some y) s
            = (Inr (normalize_sorted ascending raw), s')"
    by (simp add: feature_importance_split)
next
  fix raw s' i
  assume run: "raw_importances predict rand data_set (Some y) s = (Inr raw, s')"
    and dist: "distinct (feature_ids data_set)"
    and i: "i < length (feature_ids data_set)"
  from raw_importances_Inr [OF run assms] dist i obtain v where
    v: "map_of raw (feature_ids data_set ! i) = Some v" and
    sc: "step_score predict rand (heap s (data data_set)) y (shape0 y)
           (rng_pos s + i * shape0 y) (feature_ids data_set ! i) = Some v"
    by auto
  from step_score_Some [OF sc] v
  show "\<exists>col new_predictions d.
          map_of (fr_columns (heap s (data data_set))) (feature_ids data_set ! i) = Some col
        \<and> predict (frame_set_column (heap s (data data_set)) (feature_ids data_set ! i)
             (draw_samples rand (rng_pos s + i * shape0 y) col (shape0 y)))
            = Inr new_predictions
        \<and> nd_sub new_predictions y = Some d
        \<and> map_of raw (feature_ids data_set ! i) = Some (np_mean (np_std_axis0 d))"
    by blast
next
  fix b assume b: "predict (heap s (data data_set)) = Inr b"
  let ?e = "(data data_set, heap s (data data_set))"
  let ?s0 = "s\<lparr>predict_calls := []\<rparr>"
  let ?R = "raw_importances predict rand data_set (Some b) ?s0"
  have s: "s = relog (predict_calls s) ?s0"
    by (simp add: relog_def)
  have s1: "s\<lparr>predict_calls := predict_calls s @ [?e]\<rparr> = relog (predict_calls s @ [?e]) ?s0"
    by (simp add: relog_def)
  have some: "raw_importances predict rand data_set (Some b) s
                = (fst ?R, relog (predict_calls s) (snd ?R))"
    using raw_importances_relog [of predict rand data_set b "predict_calls s" ?s0] s by simp
  have "raw_importances predict rand data_set None s
          = raw_importances predict rand data_set (Some b)
              (relog (predict_calls s @ [?e]) ?s0)"
    using raw_importances_None [of predict s data_set b rand] b s1 by simp
  then have none: "raw_importances predict rand data_set None s
                = (fst ?R, relog (predict_calls s @ [?e]) (snd ?R))"
    by (simp only: raw_importances_relog)
  show "fst (feature_importance predict rand data_set ascending None s)
            = fst (feature_importance predict rand data_set ascending (Some b) s)"
    by (simp add: feature_importance_split some none)
  show "new_calls s (snd (feature_importance predict rand data_set ascending None s))
            = ?e # new_calls s (snd (feature_importance predict rand data_set ascending (Some b) s))"
    by (simp add: snd_feature_importance some none new_calls_def relog_def)
next
  fix e assume "predict (heap s (data data_set)) = Inl e"
  then show "feature_importance predict rand data_set ascending None s
            = (Inl (Raised e),
               s\<lparr>predict_calls := predict_calls s @ [(data data_set, heap s (data data_set))]\<rparr>)"
    by (simp add: feature_importance_def raw_importances_unfold call_predict_apply exc_bind_def)
qed

lemma ex_raw_y_true:
  "raw_importances ex_predict_A ex_rand ex_data_set (Some (Arr1 [1, 5])) ex_state =
     (Inr [(''A'', Fin 2), (''B'', Fin 1)],
      ex_state\<lparr>heap := (heap ex_state)(1 := ex_frame), next_ref := 2, rng_pos := 4,
        predict_calls := [
          (1, frame_set_column ex_frame ''A'' [0, 0]),
          (1, frame_set_column ex_frame ''B'' [5, 5])]\<rparr>)"
  by (simp add: ex_defs run_defs)

theorem y_true_replaces_baseline_witness:
  "data ex_data_set < next_ref ex_state
   \<and> fst (hd (new_calls ex_state (snd (feature_importance ex_predict_A ex_rand ex_data_set True
         (Some (Arr1 [1, 5])) ex_state)))) \<noteq> data ex_data_set
   \<and> fst (feature_importance ex_predict_A ex_rand ex_data_set True (Some (Arr1 [1, 5])) ex_state)
       = Inr [(''B'', Fin (1 / 3)), (''A'', Fin (2 / 3))]
   \<and> distinct (feature_ids ex_data_set) \<and> 1 < length (feature_ids ex_data_set)
   \<and> ex_predict_A (frame_set_column ex_frame ''B'' [5, 5]) = Inr (Arr1 [0, 2])
   \<and> nd_sub (Arr1 [0, 2]) (Arr1 [1, 5]) = Some (Arr1 [- 1, - 3])
   \<and> map_of [(''A'', Fin 2), (''B'', Fin 1)] ''B''
       = Some (np_mean (np_std_axis0 (Arr1 [- 1, - 3])))
   \<and> ex_predict_A (heap ex_state (data ex_data_set)) = Inr (Arr1 [0, 2])
   \<and> fst (feature_importance ex_predict_A ex_rand ex_data_set True None ex_state)
       = fst (feature_importance ex_predict_A ex_rand ex_data_set True (Some (Arr1 [0, 2])) ex_state)
   \<and> new_calls ex_state (snd (feature_importance ex_predict_A ex_rand ex_data_set True None ex_state))
       = (0, ex_frame) # new_calls ex_state
           (snd (feature_importance ex_predict_A ex_rand ex_data_set True (Some (Arr1 [0, 2])) ex_state))
   \<and> data ex_no_features < next_ref ex_empty_state
   \<and> ex_predict_A (heap ex_empty_state (data ex_no_features)) = Inl ()
   \<and> feature_importance ex_predict_A ex_rand ex_no_features True None ex_empty_state
       = (Inl (Raised ()), ex_empty_state\<lparr>predict_calls := [(0, ex_empty_frame)]\<rparr>)"
proof -
  have alloc: "data ex_data_set < next_ref ex_state"
    and alloc': "data ex_no_features < next_ref ex_empty_state"
    and dist: "distinct (feature_ids ex_data_set)"
    and i: "1 < length (feature_ids ex_data_set)"
    by (simp_all add: ex_defs)
  have b: "ex_predict_A (heap ex_state (data ex_data_set)) = Inr (Arr1 [0, 2])"
    and e: "ex_predict_A (heap ex_empty_state (data ex_no_features)) = Inl ()"
    by (simp_all add: ex_defs)
  note one = y_true_replaces_baseline [OF alloc, where predict = ex_predict_A
      and rand = ex_rand and ascending = True and y = "Arr1 [1, 5]"]
  note two = y_true_replaces_baseline [OF alloc', where predict = ex_predict_A
      and rand = ex_rand and ascending = True and y = "Arr1 [0, 2]"]
  from one ex_raw_y_true have run:
    "feature_importance ex_predict_A ex_rand ex_data_set True (Some (Arr1 [1, 5])) ex_state
       = (Inr (normalize_sorted True [(''A'', Fin 2), (''B'', Fin 1)]),
          ex_state\<lparr>heap := (heap ex_state)(1 := ex_frame), next_ref := 2, rng_pos := 4,
            predict_calls := [
              (1, frame_set_column ex_frame ''A'' [0, 0]),
              (1, frame_set_column ex_frame ''B'' [5, 5])]\<rparr>)"
    by blast
  have mem: "hd (new_calls ex_state (snd (feature_importance ex_predict_A ex_rand ex_data_set True
         (Some (Arr1 [1, 5])) ex_state)))
       \<in> set (new_calls ex_state (snd (feature_importance ex_predict_A ex_rand ex_data_set True
         (Some (Arr1 [1, 5])) ex_state)))"
    by (simp add: run new_calls_def) (simp add: ex_defs)
  from one mem have c1: "fst (hd (new_calls ex_state (snd (feature_importance ex_predict_A ex_rand
      ex_data_set True (Some (Arr1 [1, 5])) ex_state)))) \<noteq> data ex_data_set"
    by blast
  from run have c2:
    "fst (feature_importance ex_predict_A ex_rand ex_data_set True (Some (Arr1 [1, 5])) ex_state)
       = Inr [(''B'', Fin (1 / 3)), (''A'', Fin (2 / 3))]"
    by (simp add: run_defs)
  from one ex_raw_y_true dist i obtain col new_predictions d where
    "map_of (fr_columns (heap ex_state (data ex_data_set))) (feature_ids ex_data_set ! 1) = Some col"
    "ex_predict_A (frame_set_column (heap ex_state (data ex_data_set)) (feature_ids ex_data_set ! 1)
         (draw_samples ex_rand (rng_pos ex_state + 1 * shape0 (Arr1 [1, 5])) col
            (shape0 (Arr1 [1, 5])))) = Inr new_predictions"
    "nd_sub new_predictions (Arr1 [1, 5]) = Some d"
    "map_of [(''A'', Fin 2), (''B'', Fin 1)] (feature_ids ex_data_set ! 1)
       = Some (np_mean (np_std_axis0 d))"
    by blast
  then have c3: "ex_predict_A (frame_set_column ex_frame ''B'' [5, 5]) = Inr (Arr1 [0, 2])
     \<and> nd_sub (Arr1 [0, 2]) (Arr1 [1, 5]) = Some (Arr1 [- 1, - 3])
     \<and> map_of [(''A'', Fin 2), (''B'', Fin 1)] ''B''
         = Some (np_mean (np_std_axis0 (Arr1 [- 1, - 3])))"
    by (auto simp: ex_defs frame_set_column_def draw_samples_def bc_dim_def bc_nth_def upt_rec)
  from one b have c4:
    "fst (feature_importance ex_predict_A ex_rand ex_data_set True None ex_state)
       = fst (feature_importance ex_predict_A ex_rand ex_data_set True (Some (Arr1 [0, 2])) ex_state)
     \<and> new_calls ex_state (snd (feature_importance ex_predict_A ex_rand ex_data_set True None ex_state))
       = (data ex_data_set, heap ex_state (data ex_data_set)) # new_calls ex_state
           (snd (feature_importance ex_predict_A ex_rand ex_data_set True (Some (Arr1 [0, 2])) ex_state))"
    by blast
  from two e have c5:
    "feature_importance ex_predict_A ex_rand ex_no_features True None ex_empty_state
       = (Inl (Raised ()), ex_empty_state\<lparr>predict_calls := predict_calls ex_empty_state @
            [(data ex_no_features, heap ex_empty_state (data ex_no_features))]\<rparr>)"
    by blast
  from c1 c2 c3 c4 c5 show ?thesis using alloc alloc' dist i b e
    by (simp add: ex_defs)
qed

section \<open>Scores are non-negative\<close>

lemma nonneg_or_nan_iff: "nonneg_or_nan v \<longleftrightarrow> v = NaN \<or> is_nonneg v"
  by (cases v) auto

lemma std_pop_nonneg: "xs \<noteq> [] \<Longrightarrow> is_nonneg (std_pop xs)"
proof -
  assume "xs \<noteq> []"
  have "0 \<le> sum_list (map (\<lambda>x. \<bar>x - mean_real xs\<bar>\<^sup>2) xs)"
    by (rule sum_list_nonneg) auto
  then have "0 \<le> mean_real (map (\<lambda>x. \<bar>x - mean_real xs\<bar>\<^sup>2) xs)"
    by (simp add: mean_real_def)
  with \<open>xs \<noteq> []\<close> show ?thesis by (simp add: std_pop_def)
qed

lemma std_pop_nonneg_or_nan: "nonneg_or_nan (std_pop xs)"
  using std_pop_nonneg [of xs] by (cases "xs = []") (simp_all add: std_pop_def nonneg_or_nan_iff)

lemma fl_sum_Cons: "fl_sum (v # vs) = fl_add v (fl_sum vs)"
  by (simp add: fl_sum_def)

lemma fl_sum_Nil: "fl_sum [] = Fin 0"
  by (simp add: fl_sum_def)

lemma fl_sum_nonneg:
  "list_all is_nonneg vs \<Longrightarrow> fl_sum vs = Fin (sum_list (map fin_val vs)) \<and> 0 \<le> sum_list (map fin_val vs)"
proof (induction vs)
  case Nil
  show ?case by (simp add: fl_sum_Nil)
next
  case (Cons v vs)
  then show ?case by (cases v) (auto simp: fl_sum_Cons)
qed





lemma bc_dim_same [simp]: "bc_dim a a = Some a"
  by (simp add: bc_dim_def)

lemma bc_nth_in_range: "i < length xs \<Longrightarrow> bc_nth xs i = xs ! i"
  by (auto simp: bc_nth_def)






lemma set_update_subset: "set (AList.update k v al) \<subseteq> insert (k, v) (set al)"
  by (induction al) auto



section \<open>The order of the result\<close>







lemma fl_less_NaN_right [simp]: "\<not> fl_less a NaN"
  by (cases a) auto










section \<open>The normalised scores\<close>


lemma filter_not_NaN_nonneg:
  "list_all is_nonneg vs \<Longrightarrow> filter (\<lambda>v. v \<noteq> NaN) vs = vs"
  by (induction vs) auto







section \<open>The raw score of a feature\<close>

lemma fl_div_one: "nonneg_or_nan v \<Longrightarrow> fl_div (fl_add v (Fin 0)) (Fin 1) = v"
  by (cases v) auto

lemma difference_1d:
  "length xs = length ys \<Longrightarrow>
   map (\<lambda>j. bc_nth xs j - bc_nth ys j) [0..<length xs]
     = map (\<lambda>i. xs ! i - ys ! i) [0..<length xs]"
  by (rule map_cong [OF refl]) (simp add: bc_nth_in_range)

lemma column_of_difference:
  assumes "length rs = length rs'" and "j < k"
    and "list_all (\<lambda>r. length r = k) rs" and "list_all (\<lambda>r. length r = k) rs'"
  shows "map (\<lambda>r. r ! j)
           (map (\<lambda>i. map (\<lambda>j. bc_nth (bc_nth rs i) j - bc_nth (bc_nth rs' i) j) [0..<k])
              [0..<length rs])
           = map (\<lambda>i. rs ! i ! j - rs' ! i ! j) [0..<length rs]"
proof -
  have "(map (\<lambda>j. bc_nth (bc_nth rs i) j - bc_nth (bc_nth rs' i) j) [0..<k]) ! j
          = rs ! i ! j - rs' ! i ! j" if "i < length rs" for i
  proof -
    from that assms(1) have i: "i < length rs" "i < length rs'" by simp_all
    with assms(3,4) have "length (rs ! i) = k" "length (rs' ! i) = k"
      by (simp_all add: list_all_length)
    with i assms(2) show ?thesis
      by (simp add: bc_nth_in_range)
  qed
  then show ?thesis by (simp add: comp_def)
qed

text \<open>
  For arrays of the same shape, the score that the code computes is the score of the
  specification.
\<close>

lemma score_refines_spec:
  assumes "nd_sub new_predictions baseline = Some d"
    and "shape new_predictions = shape baseline"
  shows "\<exists>delta_columns. spec_delta_columns new_predictions baseline = Some delta_columns
           \<and> np_mean (np_std_axis0 d) = spec_score delta_columns"
proof (cases new_predictions)
  case new: (Arr1 xs)
  show ?thesis
  proof (cases baseline)
    case (Arr1 ys)
    with new assms(2) have len: "length xs = length ys" by simp
    let ?zs = "map (\<lambda>i. xs ! i - ys ! i) [0..<length xs]"
    from new Arr1 assms(1) len
    have "d = Arr1 (map (\<lambda>j. bc_nth xs j - bc_nth ys j) [0..<length xs])"
      by auto
    then have d: "d = Arr1 ?zs"
      by (simp only: difference_1d [OF len])
    have "fl_div (fl_add (std_pop ?zs) (Fin 0)) (Fin 1) = std_pop ?zs"
      by (rule fl_div_one) (rule std_pop_nonneg_or_nan)
    with new Arr1 len d show ?thesis
      by (simp add: spec_score_def fl_sum_def)
  next
    case (Arr2 k rs)
    with new assms(2) show ?thesis by simp
  qed
next
  case new: (Arr2 k rs)
  show ?thesis
  proof (cases baseline)
    case (Arr1 ys)
    with new assms(2) show ?thesis by simp
  next
    case (Arr2 k' rs')
    with new assms(2) have same: "k = k'" "length rs = length rs'" by simp_all
    from new Arr2 assms(1) have wf: "list_all (\<lambda>r. length r = k) rs"
      "list_all (\<lambda>r. length r = k) rs'"
      using same by (auto split: if_splits)
    let ?rows = "map (\<lambda>i. map (\<lambda>j. bc_nth (bc_nth rs i) j - bc_nth (bc_nth rs' i) j) [0..<k])
                   [0..<length rs]"
    from new Arr2 assms(1) same wf have d: "d = Arr2 k ?rows"
      by simp
    let ?vs = "map (\<lambda>j. std_pop (map (\<lambda>r. r ! j) ?rows)) [0..<k]"
    let ?cols = "map (\<lambda>j. map (\<lambda>i. rs ! i ! j - rs' ! i ! j) [0..<length rs]) [0..<k]"
    have eq1: "?vs = map (\<lambda>j. std_pop (map (\<lambda>i. rs ! i ! j - rs' ! i ! j) [0..<length rs])) [0..<k]"
    proof (rule map_cong [OF refl])
      fix j assume "j \<in> set [0..<k]"
      then have "j < k" by simp
      from column_of_difference [OF same(2) this wf]
      show "std_pop (map (\<lambda>r. r ! j) ?rows)
              = std_pop (map (\<lambda>i. rs ! i ! j - rs' ! i ! j) [0..<length rs])"
        by (rule arg_cong)
    qed
    have eq2: "map std_pop ?cols
                 = map (\<lambda>j. std_pop (map (\<lambda>i. rs ! i ! j - rs' ! i ! j) [0..<length rs])) [0..<k]"
      by (simp add: comp_def)
    have eq: "?vs = map std_pop ?cols"
      by (rule trans [OF eq1 eq2 [symmetric]])
    have "np_mean (np_std_axis0 d)
            = (if ?vs = [] then NaN else fl_div (fl_sum ?vs) (Fin (real (length ?vs))))"
      by (simp only: d np_std_axis0.simps np_mean.simps)
    also have "\<dots> = spec_score ?cols"
      unfolding spec_score_def eq by (simp only: map_is_Nil_conv length_map)
    finally have "np_mean (np_std_axis0 d) = spec_score ?cols" .
    moreover have "spec_delta_columns new_predictions baseline = Some ?cols"
      using same wf by (simp add: new Arr2)
    ultimately show ?thesis by blast
  qed
qed

text \<open>
  C1, as the code has it. For every feature of the dataset (the \<open>i\<close>-th of its distinct
  feature identifiers), the raw score stored for it is \<^verbatim>\<open>np.mean(np.std(., axis=0))\<close> of
  numpy's difference between the predictions on the dataset with the column of that feature
  replaced by its samples, and the baseline. When these two arrays have the same shape,
  that is the mean, across the output columns, of the standard deviation across rows of
  their elementwise difference. The samples are the \<open>n\<close> draws from the original column that
  the random source gives at the feature's turn; every other column of the perturbed
  dataset is the original one.
\<close>

theorem raw_score_is_mean_std_of_delta:
  fixes s :: "'v state"
  assumes "raw_importances predict rand data_set y_true s = (Inr raw, s')"
    and "data data_set < next_ref s"
    and "distinct (feature_ids data_set)"
    and "i < length (feature_ids data_set)"
  shows "\<exists>baseline col new_predictions d.
      (case y_true of None \<Rightarrow> predict (heap s (data data_set)) | Some b \<Rightarrow> Inr b) = Inr baseline
    \<and> map_of (fr_columns (heap s (data data_set))) (feature_ids data_set ! i) = Some col
    \<and> predict (frame_set_column (heap s (data data_set)) (feature_ids data_set ! i)
         (draw_samples rand (rng_pos s + i * shape0 baseline) col (shape0 baseline)))
        = Inr new_predictions
    \<and> nd_sub new_predictions baseline = Some d
    \<and> map_of raw (feature_ids data_set ! i) = Some (np_mean (np_std_axis0 d))
    \<and> (shape new_predictions = shape baseline \<longrightarrow>
          (\<exists>delta_columns.
              spec_delta_columns new_predictions baseline = Some delta_columns
            \<and> map_of raw (feature_ids data_set ! i) = Some (spec_score delta_columns)))"
proof -
  from raw_importances_Inr [OF assms(1,2)] assms(3,4) obtain baseline v where
    base: "(case y_true of None \<Rightarrow> predict (heap s (data data_set)) | Some b \<Rightarrow> Inr b)
             = Inr baseline" and
    v: "map_of raw (feature_ids data_set ! i) = Some v" and
    sc: "step_score predict rand (heap s (data data_set)) baseline (shape0 baseline)
           (rng_pos s + i * shape0 baseline) (feature_ids data_set ! i) = Some v"
    by blast
  from step_score_Some [OF sc] obtain col p d where
    col: "map_of (fr_columns (heap s (data data_set))) (feature_ids data_set ! i) = Some col" and
    p: "predict (frame_set_column (heap s (data data_set)) (feature_ids data_set ! i)
         (draw_samples rand (rng_pos s + i * shape0 baseline) col (shape0 baseline))) = Inr p" and
    d: "nd_sub p baseline = Some d" and vd: "v = np_mean (np_std_axis0 d)"
    by blast
  have "\<exists>delta_columns. spec_delta_columns p baseline = Some delta_columns
            \<and> map_of raw (feature_ids data_set ! i) = Some (spec_score delta_columns)"
    if "shape p = shape baseline"
    using score_refines_spec [OF d that] v vd by auto
  with base col p d v vd show ?thesis by blast
qed

theorem raw_score_is_mean_std_of_delta_witness:
  "data ex_data_set < next_ref ex_state \<and> distinct (feature_ids ex_data_set)
   \<and> 0 < length (feature_ids ex_data_set)
   \<and> shape (Arr1 [0, 0]) = shape (Arr1 [0, 2])
   \<and> spec_delta_columns (Arr1 [0, 0]) (Arr1 [0, 2]) = Some [[0, - 2]]
   \<and> map_of [(''A'', Fin 1), (''B'', Fin 0)] (feature_ids ex_data_set ! 0)
       = Some (spec_score [[0, - 2]])"
proof -
  have alloc: "data ex_data_set < next_ref ex_state"
    and dist: "distinct (feature_ids ex_data_set)"
    and i: "0 < length (feature_ids ex_data_set)"
    by (simp_all add: ex_defs)
  from raw_score_is_mean_std_of_delta [OF ex_raw alloc dist i]
  obtain baseline col new_predictions where
    "ex_predict_A (heap ex_state (data ex_data_set)) = Inr baseline"
    "map_of (fr_columns (heap ex_state (data ex_data_set))) (feature_ids ex_data_set ! 0) = Some col"
    "ex_predict_A (frame_set_column (heap ex_state (data ex_data_set)) (feature_ids ex_data_set ! 0)
         (draw_samples ex_rand (rng_pos ex_state + 0 * shape0 baseline) col (shape0 baseline)))
        = Inr new_predictions"
    "shape new_predictions = shape baseline \<longrightarrow>
          (\<exists>delta_columns.
              spec_delta_columns new_predictions baseline = Some delta_columns
            \<and> map_of [(''A'', Fin 1), (''B'', Fin 0)] (feature_ids ex_data_set ! 0)
                = Some (spec_score delta_columns))"
    by auto
  then have "baseline = Arr1 [0, 2]" "new_predictions = Arr1 [0, 0]"
    and imp: "shape new_predictions = shape baseline \<longrightarrow>
          (\<exists>delta_columns.
              spec_delta_columns new_predictions baseline = Some delta_columns
            \<and> map_of [(''A'', Fin 1), (''B'', Fin 0)] (feature_ids ex_data_set ! 0)
                = Some (spec_score delta_columns))"
    by (auto simp: ex_defs frame_set_column_def draw_samples_def)
  then obtain delta_columns where
    "spec_delta_columns (Arr1 [0, 0]) (Arr1 [0, 2]) = Some delta_columns"
    "map_of [(''A'', Fin 1), (''B'', Fin 0)] (feature_ids ex_data_set ! 0)
       = Some (spec_score delta_columns)"
    by auto
  moreover from this(1) have "delta_columns = [[0, - 2]]"
    by (simp add: upt_rec)
  ultimately show ?thesis using alloc dist i by simp
qed

text \<open>
  C1, as stated, fails when \<^verbatim>\<open>y_true\<close> has another shape than the predictions and numpy
  broadcasts the two. With \<^verbatim>\<open>y_true\<close> the column \<open>[[0], [2]]\<close> (shape \<open>(2, 1)\<close>) and
  predictions of shape \<open>(2,)\<close>, the difference is a \<open>2 \<times> 2\<close> array and the feature \<open>B\<close> has the
  raw score one, although the predictions with \<open>B\<close> perturbed are \<open>[0, 2]\<close>, the very values
  of \<^verbatim>\<open>y_true\<close>: the two arrays have no elementwise difference, and the elementwise
  difference of their values has the score zero.
\<close>

theorem raw_score_broadcast_counterexample:
  "fst (raw_importances ex_predict_A ex_rand ex_data_set (Some (Arr2 1 [[0], [2]])) ex_state)
     = Inr [(''A'', Fin 1), (''B'', Fin 1)]
   \<and> ex_predict_A (frame_set_column ex_frame ''B'' [5, 5]) = Inr (Arr1 [0, 2])
   \<and> spec_delta_columns (Arr1 [0, 2]) (Arr2 1 [[0], [2]]) = None
   \<and> spec_score [[0 - 0, 2 - 2]] = Fin 0"
  by (simp add: ex_defs run_defs spec_score_def)

section \<open>A prediction function with a constant output\<close>

lemma sum_list_zeros: "\<forall>x\<in>set zs. x = (0::real) \<Longrightarrow> sum_list zs = 0"
  by (induction zs) auto

lemma std_pop_zeros:
  assumes "zs \<noteq> []" and "\<forall>x\<in>set zs. x = 0"
  shows "std_pop zs = Fin 0"
proof -
  have m: "mean_real zs = 0"
    using assms(2) by (simp add: mean_real_def sum_list_zeros)
  have "sum_list (map (\<lambda>x. \<bar>x - 0\<bar>\<^sup>2) zs) = 0"
    by (rule sum_list_zeros) (use assms(2) in auto)
  then have "mean_real (map (\<lambda>x. \<bar>x - mean_real zs\<bar>\<^sup>2) zs) = 0"
    unfolding m by (simp add: mean_real_def)
  with assms(1) show ?thesis by (simp add: std_pop_def)
qed

lemma spec_score_zeros:
  assumes "cols \<noteq> []" and "\<forall>c\<in>set cols. c \<noteq> [] \<and> (\<forall>x\<in>set c. x = 0)"
  shows "spec_score cols = Fin 0"
proof -
  have vs: "map std_pop cols = map (\<lambda>c. Fin 0) cols"
    by (rule map_cong [OF refl]) (use assms(2) in \<open>simp add: std_pop_zeros\<close>)
  have "list_all is_nonneg (map (\<lambda>c. Fin 0) cols)"
    by (simp add: list_all_iff)
  from fl_sum_nonneg [OF this] have "fl_sum (map (\<lambda>c. Fin 0) cols) = Fin 0"
    by (simp add: comp_def)
  with assms(1) show ?thesis
    by (simp add: spec_score_def vs)
qed

lemma constant_difference_score:
  assumes "wf_ndarray c" and "0 < shape0 c" and "0 < out_cols c"
  shows "\<exists>d. nd_sub c c = Some d \<and> np_mean (np_std_axis0 d) = Fin 0"
proof -
  from assms(1) obtain d where d: "nd_sub c c = Some d"
    by (cases c) auto
  from score_refines_spec [OF d refl] obtain cols where
    cols: "spec_delta_columns c c = Some cols" and
    score: "np_mean (np_std_axis0 d) = spec_score cols" by blast
  have "cols \<noteq> [] \<and> (\<forall>col\<in>set cols. col \<noteq> [] \<and> (\<forall>x\<in>set col. x = 0))"
    using cols assms by (cases c) (auto split: if_splits)
  with spec_score_zeros [of cols] score d show ?thesis by simp
qed

lemma perturb_feature_total:
  assumes "data ds \<noteq> data cp"
    and "heap s (data cp) = heap s (data ds)"
    and "map_of (fr_columns (heap s (data ds))) f = Some col"
    and "length col = length (fr_index (heap s (data ds)))"
    and "n = length (fr_index (heap s (data ds)))"
    and "predict (frame_set_column (heap s (data ds)) f (draw_samples rand (rng_pos s) col n))
           = Inr p"
    and "nd_sub p orig = Some d"
  shows "\<exists>s'. perturb_feature predict rand ds cp orig n f s = (Inr (np_mean (np_std_axis0 d)), s')
           \<and> heap s' = heap s"
proof -
  have same: "frame_set_column (heap s (data ds)) f col = heap s (data ds)"
    using assms(3) by (rule frame_set_column_same)
  have len: "length (draw_samples rand (rng_pos s) col n) = length (fr_index (heap s (data ds)))"
    using assms(5) by (simp add: draw_samples_def)
  have nonempty: "\<not> (col = [] \<and> 0 < n)"
    using assms(4,5) by auto
  show ?thesis
    using assms(1-4,6,7) same len nonempty
    unfolding perturb_feature_def generate_column_sample_def dm_getitem_def dm_setitem_def
      call_predict_def exc_of_option_def exc_return_def exc_bind_def
    by (simp add: Let_def frame_set_column_def fun_upd_idem_iff)
qed

lemma importance_loop_constant:
  assumes "data ds \<noteq> data cp"
    and "heap s (data cp) = heap s (data ds)"
    and "\<forall>f\<in>set fs. \<exists>col. map_of (fr_columns (heap s (data ds))) f = Some col
            \<and> length col = length (fr_index (heap s (data ds)))"
    and "n = length (fr_index (heap s (data ds)))"
    and "\<forall>fr. predict fr = Inr c"
    and "nd_sub c orig = Some d"
    and "np_mean (np_std_axis0 d) = Fin 0"
  shows "\<exists>res s'. importance_loop predict rand ds cp orig n fs imps s = (Inr res, s')
           \<and> (\<forall>p\<in>set res. p \<in> set imps \<or> snd p = Fin 0)"
  using assms(2,3,4)
proof (induction fs arbitrary: imps s)
  case Nil
  show ?case by (simp add: exc_return_def)
next
  case (Cons f fs)
  from Cons.prems(2) obtain col where
    col: "map_of (fr_columns (heap s (data ds))) f = Some col"
      "length col = length (fr_index (heap s (data ds)))" by auto
  from assms(5) have p: "predict (frame_set_column (heap s (data ds)) f
      (draw_samples rand (rng_pos s) col n)) = Inr c" by simp
  have "\<exists>s1. perturb_feature predict rand ds cp orig n f s
                = (Inr (np_mean (np_std_axis0 d)), s1) \<and> heap s1 = heap s"
    using assms(1) Cons.prems(1) col Cons.prems(3) p assms(6) by (rule perturb_feature_total)
  then obtain s1 where
    step: "perturb_feature predict rand ds cp orig n f s = (Inr (Fin 0), s1)" and
    h: "heap s1 = heap s"
    unfolding assms(7) by blast
  have "\<exists>res s'. importance_loop predict rand ds cp orig n fs (AList.update f (Fin 0) imps) s1
                    = (Inr res, s')
           \<and> (\<forall>p\<in>set res. p \<in> set (AList.update f (Fin 0) imps) \<or> snd p = Fin 0)"
    by (rule Cons.IH) (use Cons.prems h in simp_all)
  then obtain res s' where
    rest: "importance_loop predict rand ds cp orig n fs (AList.update f (Fin 0) imps) s1
             = (Inr res, s')" and
    vals: "\<forall>p\<in>set res. p \<in> set (AList.update f (Fin 0) imps) \<or> snd p = Fin 0"
    by blast
  have "\<forall>p\<in>set res. p \<in> set imps \<or> snd p = Fin 0"
    using vals set_update_subset [of f "Fin 0" imps] by fastforce
  moreover have "importance_loop predict rand ds cp orig n (f # fs) imps s = (Inr res, s')"
    using step rest by (simp add: exc_bind_def)
  ultimately show ?case by blast
qed

lemma normalize_zeros:
  assumes "\<forall>p\<in>set raw. snd p = Fin 0"
  shows "\<forall>p\<in>set (normalize_sorted ascending raw). snd p = NaN"
proof -
  let ?xs = "sort_values ascending raw"
  have z: "\<forall>p\<in>set ?xs. snd p = Fin 0"
    using assms by (simp add: set_sort_values)
  then have all: "list_all is_nonneg (map snd ?xs)"
    by (simp add: list_all_iff)
  have "sum_list (map fin_val (map snd ?xs)) = 0"
    by (rule sum_list_zeros) (use z in auto)
  with fl_sum_nonneg [OF all] have "series_sum ?xs = Fin 0"
    by (simp add: series_sum_def filter_not_NaN_nonneg [OF all])
  with z show ?thesis
    by (auto simp: normalize_sorted_def Let_def series_div_def)
qed

text \<open>
  C7, as the code has it. Let \<^verbatim>\<open>predict\<close> return the same array \<open>c\<close> for every input, with one
  row per row of the dataset, at least one row and at least one output column, and let the
  baseline be that array (\<^verbatim>\<open>y_true\<close> is \<^verbatim>\<open>None\<close>, or is \<open>c\<close>). Then the call returns: every
  raw score is zero, and the returned series has the feature identifiers as keys and
  not-a-number as every score; no exception is raised.
\<close>

theorem constant_predict_gives_nan:
  fixes s :: "'v state"
  assumes "wf_data_set s data_set"
    and "fr_index (heap s (data data_set)) \<noteq> []"
    and "\<forall>fr. predict fr = Inr c"
    and "shape0 c = length (fr_index (heap s (data data_set)))"
    and "0 < out_cols c"
    and "wf_ndarray c"
    and "y_true = None \<or> y_true = Some c"
  shows "\<exists>raw series s'.
        raw_importances predict rand data_set y_true s = (Inr raw, s')
      \<and> (\<forall>p\<in>set raw. snd p = Fin 0)
      \<and> feature_importance predict rand data_set ascending y_true s = (Inr series, s')
      \<and> fst ` set series = set (feature_ids data_set)
      \<and> (\<forall>p\<in>set series. snd p = NaN)"
proof -
  let ?cp = "\<lparr>data = next_ref s, feature_ids = feature_ids data_set, index = index data_set\<rparr>"
  let ?start = "\<lambda>s1::'v state. s1\<lparr>heap := (heap s1)(next_ref s1 := heap s1 (data data_set)),
                next_ref := Suc (next_ref s1)\<rparr>"
  let ?s1 = "s\<lparr>predict_calls := predict_calls s @ [(data data_set, heap s (data data_set))]\<rparr>"
  from assms(1) have alloc: "data data_set < next_ref s"
    and cols: "\<forall>f\<in>set (feature_ids data_set).
        \<exists>col. map_of (fr_columns (heap s (data data_set))) f = Some col
            \<and> length col = length (fr_index (heap s (data data_set)))"
    by (auto simp: wf_data_set_def list_all_iff split: option.splits)
  from assms(2,4) have "0 < shape0 c" by simp
  from constant_difference_score [OF assms(6) this assms(5)] obtain d where
    d: "nd_sub c c = Some d" "np_mean (np_std_axis0 d) = Fin 0" by blast
  have loop: "\<exists>res s'. importance_loop predict rand data_set ?cp c (shape0 c)
                 (feature_ids data_set) [] (?start s1) = (Inr res, s')
           \<and> (\<forall>p\<in>set res. p \<in> set [] \<or> snd p = Fin 0)"
    if "heap s1 = heap s" "next_ref s1 = next_ref s" for s1 :: "'v state"
    by (rule importance_loop_constant [OF _ _ _ _ assms(3) d])
       (use that alloc cols assms(4) in simp_all)
  have "\<exists>s1. heap s1 = heap s \<and> next_ref s1 = next_ref s
          \<and> raw_importances predict rand data_set y_true s
            = importance_loop predict rand data_set ?cp c (shape0 c)
                 (feature_ids data_set) [] (?start s1)"
  proof (cases y_true)
    case None
    have "raw_importances predict rand data_set None s
            = importance_loop predict rand data_set ?cp c (shape0 c)
                 (feature_ids data_set) [] (?start ?s1)"
      using assms(3) by (simp add: raw_importances_unfold call_predict_apply)
    moreover have "heap ?s1 = heap s" "next_ref ?s1 = next_ref s" by simp_all
    ultimately show ?thesis using None by blast
  next
    case (Some b)
    with assms(7) have "b = c" by simp
    then have "raw_importances predict rand data_set (Some b) s
            = importance_loop predict rand data_set ?cp c (shape0 c)
                 (feature_ids data_set) [] (?start s)"
      by (simp add: raw_importances_unfold)
    with Some show ?thesis by blast
  qed
  with loop obtain raw s' where
    raw: "raw_importances predict rand data_set y_true s = (Inr raw, s')" and
    zeros: "\<forall>p\<in>set raw. snd p = Fin 0"
    by fastforce
  let ?series = "normalize_sorted ascending raw"
  have run: "feature_importance predict rand data_set ascending y_true s = (Inr ?series, s')"
    using raw by (simp add: feature_importance_Inr_iff)
  have "mset (map fst ?series) = mset (map fst raw)"
    by (rule keys_normalize_sorted)
  then have "set (map fst ?series) = set (map fst raw)"
    by (metis set_mset_mset)
  with raw_importances_keys(1) [OF raw] have keys: "fst ` set ?series = set (feature_ids data_set)"
    by simp
  from raw zeros run keys normalize_zeros [OF zeros, of ascending] show ?thesis by blast
qed

lemma ex_run_const:
  "feature_importance ex_predict_const ex_rand ex_data_set True None ex_state =
     (Inr [(''A'', NaN), (''B'', NaN)],
      ex_state\<lparr>heap := (heap ex_state)(1 := ex_frame), next_ref := 2, rng_pos := 4,
        predict_calls := [(0, ex_frame),
          (1, frame_set_column ex_frame ''A'' [0, 0]),
          (1, frame_set_column ex_frame ''B'' [5, 5])]\<rparr>)"
  by (simp add: ex_defs run_defs)

theorem constant_predict_gives_nan_witness:
  "wf_data_set ex_state ex_data_set
   \<and> fr_index (heap ex_state (data ex_data_set)) \<noteq> []
   \<and> shape0 (Arr1 [1, 1]) = length (fr_index (heap ex_state (data ex_data_set)))
   \<and> fst ` set [(''A'', NaN), (''B'', NaN)] = set (feature_ids ex_data_set)
   \<and> list_all (\<lambda>p. snd p = NaN) [(''A'', NaN), (''B'', NaN)]"
proof -
  have wf: "wf_data_set ex_state ex_data_set"
    and rows: "fr_index (heap ex_state (data ex_data_set)) \<noteq> []"
    and shape: "shape0 (Arr1 [1, 1]) = length (fr_index (heap ex_state (data ex_data_set)))"
      "0 < out_cols (Arr1 [1, 1])" "wf_ndarray (Arr1 [1, 1])"
    by (simp_all add: ex_defs wf_data_set_def)
  have const: "\<forall>fr. ex_predict_const fr = Inr (Arr1 [1, 1])"
    by (simp add: ex_predict_const_def)
  have y: "(None :: ndarray option) = None \<or> None = Some (Arr1 [1, 1])" by simp
  from constant_predict_gives_nan [OF wf rows const shape y, of ex_rand True]
  obtain series s' where
    "feature_importance ex_predict_const ex_rand ex_data_set True None ex_state = (Inr series, s')"
    "fst ` set series = set (feature_ids ex_data_set)"
    "\<forall>p\<in>set series. snd p = NaN"
    by blast
  then have "fst ` set [(''A'', NaN), (''B'', NaN)] = set (feature_ids ex_data_set)"
    "\<forall>p\<in>set [(''A'', NaN), (''B'', NaN)]. snd p = NaN"
    by (simp_all add: ex_run_const)
  with wf rows shape(1) show ?thesis by (simp add: list_all_iff)
qed

text \<open>
  C7, as stated, fails for a prediction function that is deterministic but not constant:
  with the one that returns the column \<open>A\<close>, the raw score of \<open>A\<close> is one.
\<close>

theorem deterministic_predict_counterexample:
  "fst (raw_importances ex_predict_A ex_rand ex_data_set None ex_state)
     = Inr [(''A'', Fin 1), (''B'', Fin 0)]
   \<and> Fin 1 \<noteq> Fin 0"
  by (simp add: ex_raw)

end
